theory Spec2Isabelle
  imports Complex_Main "HOL-Library.Char_ord" "HOL-Library.List_Lexorder" "HOL-Library.Multiset"
begin

section \<open>Python values, exceptions and the builtins the script relies on\<close>

text \<open>
  The script \<^verbatim>\<open>scripts/run_llm_trials.py\<close> handles values decoded from JSON (model replies
  and trial metadata). They are modelled by \<open>pyval\<close>. A Python \<^verbatim>\<open>float\<close> is \<open>pyfloat\<close>: a finite
  double is represented by its exact rational value (the sign of zero is not represented),
  next to the two infinities and NaN. A \<^verbatim>\<open>str\<close> is a \<open>string\<close> whose characters are the code
  points below 256. A \<^verbatim>\<open>dict\<close> decoded from JSON is an association list in insertion order
  with distinct keys; \<^verbatim>\<open>d.get(k)\<close> is \<open>map_of\<close>.
\<close>

datatype pyfloat = Fin rat | PosInf | NegInf | NaN

datatype pyval =
    PNone
  | PBool bool
  | PInt int
  | PFloat pyfloat
  | PStr string
  | PList "pyval list"
  | PDict "(string \<times> pyval) list"

text \<open>
  Exceptions are values: the class and the text that \<^verbatim>\<open>str(exc)\<close> yields. Only subclasses of
  \<^verbatim>\<open>Exception\<close> are modelled (what \<^verbatim>\<open>except Exception\<close> catches); \<open>LibraryError\<close> stands for
  the classes of the provider client libraries, named by a string.
\<close>

datatype exn_class =
    AttributeError | IndexError | KeyError | OverflowError | TypeError | ValueError
  | JSONDecodeError | RuntimeError | OSError | LibraryError string

datatype exn = Exn exn_class string

fun exn_cls :: "exn \<Rightarrow> exn_class" where
  "exn_cls (Exn c m) = c"

fun exn_str :: "exn \<Rightarrow> string" where
  "exn_str (Exn c m) = m"

text \<open>\<^verbatim>\<open>json.JSONDecodeError\<close> is a subclass of \<^verbatim>\<open>ValueError\<close>; the other classes are unrelated.\<close>

definition isinstance :: "exn \<Rightarrow> exn_class \<Rightarrow> bool" where
  "isinstance e c = (exn_cls e = c \<or> (exn_cls e = JSONDecodeError \<and> c = ValueError))"

subsection \<open>Strings\<close>

text \<open>\<^verbatim>\<open>str.isspace\<close> on the code points below 256.\<close>

definition py_isspace :: "char \<Rightarrow> bool" where
  "py_isspace c = ((of_char c :: nat) \<in> {9, 10, 11, 12, 13, 28, 29, 30, 31, 32, 133, 160})"

definition py_lstrip :: "string \<Rightarrow> string" where
  "py_lstrip s = dropWhile py_isspace s"

definition py_rstrip :: "string \<Rightarrow> string" where
  "py_rstrip s = rev (dropWhile py_isspace (rev s))"

definition py_strip :: "string \<Rightarrow> string" where
  "py_strip s = py_rstrip (py_lstrip s)"

text \<open>
  \<^verbatim>\<open>str.upper\<close> and \<^verbatim>\<open>str.lower\<close>, character by character. The micro sign (181) and
  y with diaeresis (255) have upper-case forms beyond code point 255 and are left as they
  are; sharp s (223) becomes \<^verbatim>\<open>SS\<close>.
\<close>

definition py_upper_char :: "char \<Rightarrow> string" where
  "py_upper_char c =
     (let n = (of_char c :: nat) in
      if 97 \<le> n \<and> n \<le> 122 then [char_of (n - 32)]
      else if n = 223 then ''SS''
      else if 224 \<le> n \<and> n \<le> 254 \<and> n \<noteq> 247 then [char_of (n - 32)]
      else [c])"

definition py_upper :: "string \<Rightarrow> string" where
  "py_upper s = concat (map py_upper_char s)"

definition py_lower_char :: "char \<Rightarrow> char" where
  "py_lower_char c =
     (let n = (of_char c :: nat) in
      if 65 \<le> n \<and> n \<le> 90 then char_of (n + 32)
      else if 192 \<le> n \<and> n \<le> 222 \<and> n \<noteq> 215 then char_of (n + 32)
      else c)"

definition py_lower :: "string \<Rightarrow> string" where
  "py_lower s = map py_lower_char s"

definition startswith :: "string \<Rightarrow> string \<Rightarrow> bool" where
  "startswith s p = (take (length p) s = p)"

text \<open>\<^verbatim>\<open>sep.join(parts)\<close>.\<close>

fun py_join :: "string \<Rightarrow> string list \<Rightarrow> string" where
  "py_join sep [] = []"
| "py_join sep [x] = x"
| "py_join sep (x # y # ys) = x @ sep @ py_join sep (y # ys)"

text \<open>
  \<^verbatim>\<open>s.find(sub)\<close> for a non-empty \<open>sub\<close>: the index of the leftmost occurrence, \<open>None\<close> for
  Python's \<open>-1\<close>.
\<close>

fun py_find :: "string \<Rightarrow> string \<Rightarrow> nat option" where
  "py_find [] sub = None"
| "py_find (c # cs) sub =
     (if startswith (c # cs) sub then Some 0
      else map_option Suc (py_find cs sub))"

text \<open>
  \<^verbatim>\<open>s.split(sep)\<close> for a non-empty separator: cut at the leftmost occurrence and go on
  behind it. (Python rejects an empty separator; the script never passes one.)
\<close>

function py_split :: "string \<Rightarrow> string \<Rightarrow> string list" where
  "py_split s sep =
     (if sep = [] then []
      else case py_find s sep of
             None \<Rightarrow> [s]
           | Some i \<Rightarrow> take i s # py_split (drop (i + length sep) s) sep)"
  by pat_completeness auto
termination
proof (relation "measure (\<lambda>(s, sep). length s)")
  show "wf (measure (\<lambda>(s, sep). length s))" by simp
next
  fix s sep :: string and i :: nat
  assume "sep \<noteq> []" and "py_find s sep = Some i"
  then have "s \<noteq> []" by (cases s) auto
  with \<open>sep \<noteq> []\<close> show "((drop (i + length sep) s, sep), (s, sep)) \<in> measure (\<lambda>(s, sep). length s)"
    by (cases sep) auto
qed

declare py_split.simps [simp del]

subsection \<open>Text forms of values\<close>

definition quoted :: "string \<Rightarrow> string" where
  "quoted s = [CHR 0x27] @ s @ [CHR 0x27]"

text \<open>\<^verbatim>\<open>type(v).__name__\<close>.\<close>

fun type_name :: "pyval \<Rightarrow> string" where
  "type_name PNone = ''NoneType''"
| "type_name (PBool b) = ''bool''"
| "type_name (PInt n) = ''int''"
| "type_name (PFloat f) = ''float''"
| "type_name (PStr s) = ''str''"
| "type_name (PList xs) = ''list''"
| "type_name (PDict kvs) = ''dict''"

text \<open>The \<^verbatim>\<open>AttributeError\<close> of \<^verbatim>\<open>v.name\<close> on a value that has no such attribute.\<close>

definition no_attribute :: "pyval \<Rightarrow> string \<Rightarrow> exn" where
  "no_attribute v name =
     Exn AttributeError (quoted (type_name v) @ '' object has no attribute '' @ quoted name)"

definition float_type_error :: "pyval \<Rightarrow> exn" where
  "float_type_error v =
     Exn TypeError (''float() argument must be a string or a real number, not ''
                    @ quoted (type_name v))"

text \<open>Decimal digits of a natural number, and \<^verbatim>\<open>str(n)\<close> of an integer.\<close>

fun nat_digits :: "nat \<Rightarrow> string" where
  "nat_digits n =
     (if n < 10 then [char_of (48 + n)]
      else nat_digits (n div 10) @ [char_of (48 + n mod 10)])"

declare nat_digits.simps [simp del]

definition int_str :: "int \<Rightarrow> string" where
  "int_str i = (if i < 0 then ''-'' @ nat_digits (nat (- i)) else nat_digits (nat i))"

text \<open>
  \<^verbatim>\<open>repr(s)\<close> of a string: single quotes unless the text holds a single quote and no double
  quote; backslash and the chosen quote are escaped, tab, newline and carriage return get
  their letters, other non-printable code points (below 32, 127 to 160, 173) are written
  \<^verbatim>\<open>\xNN\<close>.
\<close>

definition hex_digit :: "nat \<Rightarrow> char" where
  "hex_digit d = (if d < 10 then char_of (48 + d) else char_of (87 + d))"

definition repr_char :: "char \<Rightarrow> char \<Rightarrow> string" where
  "repr_char quote c =
     (let n = (of_char c :: nat) in
      if c = quote \<or> n = 92 then [CHR 0x5C, c]
      else if n = 9 then [CHR 0x5C, CHR ''t'']
      else if n = 10 then [CHR 0x5C, CHR ''n'']
      else if n = 13 then [CHR 0x5C, CHR ''r'']
      else if n < 32 \<or> (127 \<le> n \<and> n \<le> 160) \<or> n = 173
        then [CHR 0x5C, CHR ''x'', hex_digit (n div 16), hex_digit (n mod 16)]
      else [c])"

definition repr_str :: "string \<Rightarrow> string" where
  "repr_str s =
     (let quote = (if CHR 0x27 \<in> set s \<and> CHR 0x22 \<notin> set s then CHR 0x22 else CHR 0x27)
      in [quote] @ concat (map (repr_char quote) s) @ [quote])"

text \<open>
  \<^verbatim>\<open>repr(v)\<close> and \<^verbatim>\<open>str(v)\<close>. The shortest round-trip text of a float is the builtin's
  business and is a parameter \<open>repr_float\<close>.
\<close>

fun py_repr :: "(pyfloat \<Rightarrow> string) \<Rightarrow> pyval \<Rightarrow> string" where
  "py_repr repr_float PNone = ''None''"
| "py_repr repr_float (PBool b) = (if b then ''True'' else ''False'')"
| "py_repr repr_float (PInt n) = int_str n"
| "py_repr repr_float (PFloat f) = repr_float f"
| "py_repr repr_float (PStr s) = repr_str s"
| "py_repr repr_float (PList xs) = ''['' @ py_join '', '' (map (py_repr repr_float) xs) @ '']''"
| "py_repr repr_float (PDict kvs) =
     ''{'' @ py_join '', '' (map (\<lambda>kv. repr_str (fst kv) @ '': '' @ py_repr repr_float (snd kv)) kvs)
     @ ''}''"

definition py_str :: "(pyfloat \<Rightarrow> string) \<Rightarrow> pyval \<Rightarrow> string" where
  "py_str repr_float v = (case v of PStr s \<Rightarrow> s | _ \<Rightarrow> py_repr repr_float v)"

text \<open>Truth value of a value, as \<^verbatim>\<open>if v\<close> tests it.\<close>

fun truthy :: "pyval \<Rightarrow> bool" where
  "truthy PNone = False"
| "truthy (PBool b) = b"
| "truthy (PInt n) = (n \<noteq> 0)"
| "truthy (PFloat f) = (f \<noteq> Fin 0)"
| "truthy (PStr s) = (s \<noteq> [])"
| "truthy (PList xs) = (xs \<noteq> [])"
| "truthy (PDict kvs) = (kvs \<noteq> [])"

text \<open>
  \<^verbatim>\<open>v.get(key, default)\<close>: only a dict has the method; on any other value the attribute
  lookup raises \<^verbatim>\<open>AttributeError\<close>.
\<close>

definition py_get :: "pyval \<Rightarrow> string \<Rightarrow> pyval \<Rightarrow> exn + pyval" where
  "py_get v key dflt =
     (case v of
        PDict kvs \<Rightarrow> Inr (case map_of kvs key of None \<Rightarrow> dflt | Some x \<Rightarrow> x)
      | _ \<Rightarrow> Inl (no_attribute v ''get''))"

subsection \<open>Numbers\<close>

text \<open>Comparison of floats: every comparison with NaN is false.\<close>

fun float_lt :: "pyfloat \<Rightarrow> pyfloat \<Rightarrow> bool" where
  "float_lt NaN y = False"
| "float_lt x NaN = False"
| "float_lt (Fin a) (Fin b) = (a < b)"
| "float_lt x NegInf = False"
| "float_lt NegInf y = True"
| "float_lt PosInf y = False"
| "float_lt x PosInf = True"

text \<open>
  The builtins \<^verbatim>\<open>min(a, b)\<close> and \<^verbatim>\<open>max(a, b)\<close> keep the first argument unless the second one
  is strictly smaller (larger).
\<close>

definition py_min :: "pyfloat \<Rightarrow> pyfloat \<Rightarrow> pyfloat" where
  "py_min a b = (if float_lt b a then b else a)"

definition py_max :: "pyfloat \<Rightarrow> pyfloat \<Rightarrow> pyfloat" where
  "py_max a b = (if float_lt a b then b else a)"

text \<open>\<^verbatim>\<open>int.bit_length\<close> of a natural number.\<close>

fun bit_length :: "nat \<Rightarrow> nat" where
  "bit_length n = (if n = 0 then 0 else Suc (bit_length (n div 2)))"

declare bit_length.simps [simp del]

text \<open>
  \<^verbatim>\<open>float(n)\<close> for an integer: the magnitude is rounded to 53 significant bits, ties to
  even; a result of \<open>2 ^ 1024\<close> or more does not fit a double and is \<open>None\<close> (Python raises
  \<^verbatim>\<open>OverflowError\<close>). The rounded value of an integer is an integer.
\<close>

definition int_to_double :: "int \<Rightarrow> int option" where
  "int_to_double n =
     (let m = nat \<bar>n\<bar>;
          e = bit_length m - 53;
          q = m div 2 ^ e;
          r = m mod 2 ^ e;
          q' = (if 2 * r > 2 ^ e \<or> (2 * r = 2 ^ e \<and> odd q) then q + 1 else q);
          v = q' * 2 ^ e
      in if v \<ge> 2 ^ 1024 then None else Some (sgn n * int v))"

text \<open>
  \<^verbatim>\<open>float(val)\<close>. Parsing a string is the builtin's business and is a parameter
  \<open>float_of_str\<close> (\<open>None\<close> where Python raises \<^verbatim>\<open>ValueError\<close>).
\<close>

fun py_float :: "(string \<Rightarrow> pyfloat option) \<Rightarrow> pyval \<Rightarrow> exn + pyfloat" where
  "py_float float_of_str PNone = Inl (float_type_error PNone)"
| "py_float float_of_str (PBool b) = Inr (Fin (if b then 1 else 0))"
| "py_float float_of_str (PInt n) =
     (case int_to_double n of
        None \<Rightarrow> Inl (Exn OverflowError ''int too large to convert to float'')
      | Some v \<Rightarrow> Inr (Fin (of_int v)))"
| "py_float float_of_str (PFloat f) = Inr f"
| "py_float float_of_str (PStr s) =
     (case float_of_str s of
        None \<Rightarrow> Inl (Exn ValueError (''could not convert string to float: '' @ repr_str s))
      | Some f \<Rightarrow> Inr f)"
| "py_float float_of_str (PList xs) = Inl (float_type_error (PList xs))"
| "py_float float_of_str (PDict kvs) = Inl (float_type_error (PDict kvs))"

text \<open>
  The library functions whose results the script takes as they come: \<^verbatim>\<open>float\<close> on a string,
  the text of a float, and \<^verbatim>\<open>json.loads\<close>.
\<close>

record builtins =
  float_of_str :: "string \<Rightarrow> pyfloat option"
  repr_float :: "pyfloat \<Rightarrow> string"
  json_loads :: "string \<Rightarrow> exn + pyval"

section \<open>Data model\<close>

record TrialAssets =
  label :: string
  condition :: string
  correct_answer :: string
  ref_front :: "string \<times> string"
  ref_back :: "string \<times> string"
  candidates :: "(string \<times> (string \<times> string)) list"

record TrialResult =
  trial_label :: string
  condition :: string
  gold :: string
  prediction :: "string option"
  confidence :: "pyfloat option"
  reasoning :: string
  latency_ms :: "int option"
  success :: bool
  error :: "string option"

definition is_correct :: "TrialResult \<Rightarrow> bool" where
  "is_correct r = (success r \<and> prediction r = Some (gold r))"

record ModelRun =
  name :: string
  model_id :: string
  results :: "TrialResult list"

section \<open>Answer normalisation\<close>

text \<open>
  \<^verbatim>\<open>parse_json_response\<close> assigns to \<^verbatim>\<open>cleaned\<close> three times and decodes the last value:
  the stripped text, then (lines 158 to 163) the text of a leading fence without a leading
  \<^verbatim>\<open>json\<close> tag, then (lines 164 and 165) the text from the first opening brace to the last
  closing brace.
\<close>

definition py_rfind :: "string \<Rightarrow> string \<Rightarrow> nat option" where
  "py_rfind s sub =
     (case py_find (rev s) (rev sub) of
        None \<Rightarrow> None
      | Some i \<Rightarrow> Some (length s - i - length sub))"

text \<open>\<^verbatim>\<open>s[i:j]\<close> for indices that are not negative.\<close>

definition py_slice :: "string \<Rightarrow> nat \<Rightarrow> nat \<Rightarrow> string" where
  "py_slice s i j = take (j - i) (drop i s)"

definition fence :: string where
  "fence = [CHR 0x60, CHR 0x60, CHR 0x60]"

definition strip_fence :: "string \<Rightarrow> string" where
  "strip_fence cleaned =
     (if startswith cleaned fence then
        let blocks = py_split cleaned fence;
            c1 = (if length blocks > 1 then blocks ! 1 else cleaned);
            c2 = py_strip c1
        in if startswith (py_lower c2) ''json'' then py_strip (drop 4 c2) else c2
      else cleaned)"

definition narrow_braces :: "string \<Rightarrow> string" where
  "narrow_braces cleaned =
     (if CHR ''{'' \<in> set cleaned \<and> CHR ''}'' \<in> set cleaned then
        py_slice cleaned (the (py_find cleaned ''{'')) (the (py_rfind cleaned ''}'') + 1)
      else cleaned)"

definition parse_json_response :: "builtins \<Rightarrow> string \<Rightarrow> exn + pyval" where
  "parse_json_response B text = json_loads B (narrow_braces (strip_fence (py_strip text)))"

definition normalize_answer :: "builtins \<Rightarrow> pyval \<Rightarrow> string option" where
  "normalize_answer B val =
     (if val = PNone then None
      else let ans = py_upper (py_strip (py_str (repr_float B) val))
           in if ans \<in> {''A'', ''B'', ''C''} then Some ans else None)"

text \<open>
  \<^verbatim>\<open>normalize_confidence\<close>: the handler covers \<^verbatim>\<open>TypeError\<close> and \<^verbatim>\<open>ValueError\<close>; any other
  exception of \<^verbatim>\<open>float(val)\<close> leaves the function.
\<close>

definition normalize_confidence :: "builtins \<Rightarrow> pyval \<Rightarrow> exn + pyfloat option" where
  "normalize_confidence B val =
     (if val = PNone then Inr None
      else case py_float (float_of_str B) val of
             Inl exc \<Rightarrow>
               (if isinstance exc TypeError \<or> isinstance exc ValueError then Inr None
                else Inl exc)
           | Inr num \<Rightarrow> Inr (Some (py_max (Fin 0) (py_min (Fin 100) num))))"

section \<open>Provider adapter (chat-completions style)\<close>

text \<open>
  The world the script runs in: the wall clock that \<^verbatim>\<open>time.time()\<close> reads, in seconds, and
  the requests the provider has received so far, oldest first.
\<close>

datatype part = Text string | ImageUrl string

record request =
  req_model :: string
  system_content :: string
  user_content :: "part list"
  temperature :: pyfloat
  timeout :: int
  response_format :: "string option"

record world =
  clock :: rat
  sent :: "request list"

text \<open>
  A response is the list of its choices, each with the content of its message (which may
  be \<^verbatim>\<open>None\<close>). The provider is a parameter: what it answers to a request in a given world
  (or the exception the client raises) and the seconds the call takes, counted from the end
  of the step before it.
\<close>

type_synonym response = "string option list"

type_synonym provider = "world \<Rightarrow> request \<Rightarrow> (exn + response) \<times> rat"

text \<open>
  The seconds that the local steps take, each until it finishes or raises: building the
  content and the keyword arguments of the call (lines 223 to 234), taking the content of
  the message of the first choice from the response (line 243), \<^verbatim>\<open>parse_json_response\<close> on
  that content (line 244), and the normalisation statements of \<^verbatim>\<open>run_trials\<close> on a reply
  (lines 300 to 302).
\<close>

record timing =
  build_secs :: "TrialAssets \<Rightarrow> rat"
  select_secs :: "response \<Rightarrow> rat"
  parse_secs :: "string option \<Rightarrow> rat"
  normalize_secs :: "pyval \<Rightarrow> rat"

definition advance :: "rat \<Rightarrow> world \<Rightarrow> world" where
  "advance secs w = w\<lparr>clock := clock w + secs\<rparr>"

text \<open>\<^verbatim>\<open>client.chat.completions.create(**params)\<close>.\<close>

definition create :: "provider \<Rightarrow> request \<Rightarrow> world \<Rightarrow> (exn + response) \<times> world" where
  "create api params w =
     (case api w params of
        (outcome, secs) \<Rightarrow> (outcome, \<lparr>clock = clock w + secs, sent = sent w @ [params]\<rparr>))"

definition SYSTEM_PROMPT :: string where
  \<open>SYSTEM_PROMPT = py_join [CHR 0x0A]
     [''You are an expert participant in a Mental Rotation cognitive test.'',
      [],
      ''Task:'',
      ''- You see two views of a reference object (front + back/180'' @ [CHR 0xB0] @ '' turn).'',
      ''- You see three candidate objects labeled A, B, C.'',
      ''- Exactly ONE candidate is the same object as the reference, merely rotated in 3D.'',
      ''- The other two are structural distractors.'',
      [],
      ''Process:'',
      ''1) Combine the two reference views to build a 3D model of the correct object.'',
      ''2) For each candidate (A-C), mentally rotate and compare structure. Eliminate any structural mismatch.'',
      ''3) Select the single matching candidate, regardless of its rotation.'',
      [],
      ''Output JSON fields:'',
      ''- answer: "A" | "B" | "C"'',
      ''- confidence: 0-100'',
      ''- reasoning: brief why the chosen candidate matches and one flaw in at least one distractor.'']\<close>

definition USER_INSTRUCTION :: string where
  \<open>USER_INSTRUCTION =
     ''Use the two reference views to reconstruct the object. Identify which candidate (A, B, or C) ''
     @ ''matches the reference after 3D rotation. Reply ONLY with JSON: ''
     @ ''{"answer":"A|B|C","confidence":0-100,"reasoning":"short explanation"}''\<close>

definition data_url :: "string \<times> string \<Rightarrow> string" where
  "data_url img = ''data:'' @ fst img @ '';base64,'' @ snd img"

text \<open>\<^verbatim>\<open>trial.candidates[letter]\<close> raises \<^verbatim>\<open>KeyError\<close> for a missing letter.\<close>

definition candidate :: "TrialAssets \<Rightarrow> string \<Rightarrow> exn + string \<times> string" where
  "candidate trial letter =
     (case map_of (candidates trial) letter of
        None \<Rightarrow> Inl (Exn KeyError (repr_str letter))
      | Some img \<Rightarrow> Inr img)"

fun candidate_parts :: "TrialAssets \<Rightarrow> string list \<Rightarrow> exn + part list" where
  "candidate_parts trial [] = Inr []"
| "candidate_parts trial (letter # letters) =
     (case candidate trial letter of
        Inl exc \<Rightarrow> Inl exc
      | Inr img \<Rightarrow>
          (case candidate_parts trial letters of
             Inl exc \<Rightarrow> Inl exc
           | Inr ps \<Rightarrow> Inr (Text (''Candidate '' @ letter @ '':'') # ImageUrl (data_url img) # ps)))"

definition build_openai_content :: "TrialAssets \<Rightarrow> exn + part list" where
  "build_openai_content trial =
     (case candidate_parts trial [''A'', ''B'', ''C''] of
        Inl exc \<Rightarrow> Inl exc
      | Inr cands \<Rightarrow>
          Inr ([Text ''Reference Object - View 1 (Front):'',
                ImageUrl (data_url (ref_front trial)),
                Text ''Reference Object - View 2 (Back - 180 degrees):'',
                ImageUrl (data_url (ref_back trial)),
                Text ''--- CANDIDATES ---'']
               @ cands @ [Text USER_INSTRUCTION]))"

record OpenAIStyleRunner =
  client :: provider
  runner_model_id :: string
  runner_temperature :: pyfloat
  runner_timeout :: int
  json_mode :: bool

text \<open>The keyword arguments of the call, with or without \<^verbatim>\<open>response_format\<close>.\<close>

definition request_params :: "OpenAIStyleRunner \<Rightarrow> part list \<Rightarrow> bool \<Rightarrow> request" where
  "request_params self content structured =
     \<lparr>req_model = runner_model_id self, system_content = SYSTEM_PROMPT,
      user_content = content, temperature = runner_temperature self,
      timeout = runner_timeout self,
      response_format = (if structured then Some ''json_object'' else None)\<rparr>"

text \<open>
  The \<^verbatim>\<open>try\<close> statement of \<^verbatim>\<open>OpenAIStyleRunner.__call__\<close>: the call, and in the handler of
  \<^verbatim>\<open>except Exception\<close> the second call without \<^verbatim>\<open>response_format\<close> when \<^verbatim>\<open>json_mode\<close> is set,
  a re-raise otherwise.
\<close>

definition call_provider ::
  "OpenAIStyleRunner \<Rightarrow> part list \<Rightarrow> world \<Rightarrow> (exn + response) \<times> world" where
  "call_provider self content w =
     (case create (client self) (request_params self content (json_mode self)) w of
        (Inr response, w1) \<Rightarrow> (Inr response, w1)
      | (Inl exc, w1) \<Rightarrow>
          if json_mode self
          then create (client self) (request_params self content False) w1
          else (Inl exc, w1))"

text \<open>
  \<^verbatim>\<open>parse_json_response(message)\<close> for the content of a message: a content that is \<^verbatim>\<open>None\<close>
  has no \<^verbatim>\<open>strip\<close>.
\<close>

definition parse_message :: "builtins \<Rightarrow> string option \<Rightarrow> exn + pyval" where
  "parse_message B message =
     (case message of
        None \<Rightarrow> Inl (no_attribute PNone ''strip'')
      | Some text \<Rightarrow> parse_json_response B text)"

text \<open>
  \<^verbatim>\<open>OpenAIStyleRunner.__call__\<close>: the content, the call, then the content of the message of
  the first choice goes to \<^verbatim>\<open>parse_json_response\<close>. Each step moves the clock on by the
  seconds it takes, also when it raises.
\<close>

definition openai_call ::
  "builtins \<Rightarrow> timing \<Rightarrow> OpenAIStyleRunner \<Rightarrow> TrialAssets \<Rightarrow> world \<Rightarrow> (exn + pyval) \<times> world" where
  "openai_call B T self trial w =
     (let w0 = advance (build_secs T trial) w in
      case build_openai_content trial of
        Inl exc \<Rightarrow> (Inl exc, w0)
      | Inr content \<Rightarrow>
          (case call_provider self content w0 of
             (Inl exc, w2) \<Rightarrow> (Inl exc, w2)
           | (Inr response, w2) \<Rightarrow>
               (let w3 = advance (select_secs T response) w2 in
                case response of
                  [] \<Rightarrow> (Inl (Exn IndexError ''list index out of range''), w3)
                | message # rest \<Rightarrow>
                    (parse_message B message, advance (parse_secs T message) w3))))"

section \<open>Trial runner\<close>

type_synonym runner = "TrialAssets \<Rightarrow> world \<Rightarrow> (exn + pyval) \<times> world"

text \<open>\<^verbatim>\<open>int((time.time() - start) * 1000)\<close>: \<^verbatim>\<open>int\<close> truncates towards zero.\<close>

definition py_int :: "rat \<Rightarrow> int" where
  "py_int q = (if q < 0 then \<lceil>q\<rceil> else \<lfloor>q\<rfloor>)"

definition elapsed_ms :: "rat \<Rightarrow> rat \<Rightarrow> int" where
  "elapsed_ms start now = py_int ((now - start) * 1000)"

text \<open>
  The three normalisation statements of the \<^verbatim>\<open>try\<close> body, in their order:
  \<^verbatim>\<open>normalize_answer(raw.get("answer"))\<close>, \<^verbatim>\<open>normalize_confidence(raw.get("confidence"))\<close>,
  \<^verbatim>\<open>str(raw.get("reasoning", "")).strip()\<close>.
\<close>

definition normalize_reply ::
  "builtins \<Rightarrow> pyval \<Rightarrow> exn + (string option \<times> pyfloat option \<times> string)" where
  "normalize_reply B raw =
     (case py_get raw ''answer'' PNone of
        Inl exc \<Rightarrow> Inl exc
      | Inr a \<Rightarrow>
          let answer = normalize_answer B a in
          (case py_get raw ''confidence'' PNone of
             Inl exc \<Rightarrow> Inl exc
           | Inr c \<Rightarrow>
               (case normalize_confidence B c of
                  Inl exc \<Rightarrow> Inl exc
                | Inr conf \<Rightarrow>
                    (case py_get raw ''reasoning'' (PStr []) of
                       Inl exc \<Rightarrow> Inl exc
                     | Inr r \<Rightarrow>
                         Inr (answer, conf, py_strip (py_str (repr_float B) r))))))"

text \<open>The Trial Result of the \<^verbatim>\<open>except Exception\<close> branch.\<close>

definition failed_result :: "TrialAssets \<Rightarrow> int \<Rightarrow> exn \<Rightarrow> TrialResult" where
  "failed_result trial ms exc =
     \<lparr>trial_label = label trial, condition = TrialAssets.condition trial,
      gold = correct_answer trial, prediction = None, confidence = None, reasoning = [],
      latency_ms = Some ms, success = False, error = Some (exn_str exc)\<rparr>"

text \<open>One iteration of the loop of \<^verbatim>\<open>run_trials\<close>.\<close>

definition run_trial ::
  "builtins \<Rightarrow> timing \<Rightarrow> runner \<Rightarrow> TrialAssets \<Rightarrow> world \<Rightarrow> TrialResult \<times> world" where
  "run_trial B T runner trial w =
     (let start = clock w in
      case runner trial w of
        (Inl exc, w1) \<Rightarrow> (failed_result trial (elapsed_ms start (clock w1)) exc, w1)
      | (Inr raw, w1) \<Rightarrow>
          let ms = elapsed_ms start (clock w1);
              w2 = advance (normalize_secs T raw) w1
          in (case normalize_reply B raw of
                Inl exc \<Rightarrow> (failed_result trial (elapsed_ms start (clock w2)) exc, w2)
              | Inr (answer, conf, reason) \<Rightarrow>
                  (\<lparr>trial_label = label trial, condition = TrialAssets.condition trial,
                    gold = correct_answer trial, prediction = answer, confidence = conf,
                    reasoning = reason, latency_ms = Some ms,
                    success = (answer \<in> {Some ''A'', Some ''B'', Some ''C''}), error = None\<rparr>,
                   w2)))"

fun run_loop ::
  "builtins \<Rightarrow> timing \<Rightarrow> runner \<Rightarrow> TrialAssets list \<Rightarrow> world \<Rightarrow> TrialResult list \<times> world" where
  "run_loop B T runner [] w = ([], w)"
| "run_loop B T runner (trial # trials) w =
     (case run_trial B T runner trial w of
        (r, w1) \<Rightarrow> (case run_loop B T runner trials w1 of (rs, w2) \<Rightarrow> (r # rs, w2)))"

text \<open>
  \<^verbatim>\<open>run_trials\<close>; \<open>mid\<close> is the runner's \<^verbatim>\<open>model_id\<close> attribute, if it has one
  (\<^verbatim>\<open>getattr(runner, "model_id", name)\<close>).
\<close>

definition run_trials ::
  "builtins \<Rightarrow> timing \<Rightarrow> string \<Rightarrow> string option \<Rightarrow> runner \<Rightarrow> TrialAssets list \<Rightarrow> world
   \<Rightarrow> ModelRun \<times> world" where
  "run_trials B T nm mid runner trials w =
     (case run_loop B T runner trials w of
        (rs, w') \<Rightarrow>
          (\<lparr>name = nm, model_id = (case mid of None \<Rightarrow> nm | Some m \<Rightarrow> m), results = rs\<rparr>, w'))"

section \<open>Trial loader\<close>

text \<open>
  A path is the list of its components below \<^verbatim>\<open>trials_root\<close>. The file system is a
  parameter: the entries named \<^verbatim>\<open>Metadata.json\<close> that \<^verbatim>\<open>rglob\<close> yields (in the order the
  operating system lists them), what opening and decoding a metadata file gives, the bytes
  of a file, and the library functions applied to them. \<open>path_text\<close> is \<^verbatim>\<open>str(path)\<close> of the
  full path.
\<close>

type_synonym path = "string list"

record filesystem =
  rglob_metadata :: "path list"
  load_json :: "path \<Rightarrow> exn + pyval"
  read_bytes :: "path \<Rightarrow> exn + string"
  guess_type :: "string \<Rightarrow> string option"
  b64encode :: "string \<Rightarrow> string"
  path_text :: "path \<Rightarrow> string"

text \<open>Sequencing of steps that may raise: the first exception ends the sequence.\<close>

definition and_then :: "exn + 'a \<Rightarrow> ('a \<Rightarrow> exn + 'b) \<Rightarrow> exn + 'b" where
  "and_then r f = (case r of Inl exc \<Rightarrow> Inl exc | Inr x \<Rightarrow> f x)"

text \<open>\<^verbatim>\<open>read_image\<close> of the file \<open>fname\<close> in the directory \<open>dir\<close>.\<close>

definition read_image :: "filesystem \<Rightarrow> path \<Rightarrow> string \<Rightarrow> exn + string \<times> string" where
  "read_image F dir fname =
     (let mime = (case guess_type F fname of
                    None \<Rightarrow> ''image/jpeg''
                  | Some m \<Rightarrow> if m = [] then ''image/jpeg'' else m)
      in case read_bytes F (dir @ [fname]) of
           Inl exc \<Rightarrow> Inl exc
         | Inr bytes \<Rightarrow> Inr (mime, b64encode F bytes))"

text \<open>
  Iterating a value with \<^verbatim>\<open>for\<close>: a list gives its elements, a string its characters, a
  dict its keys; anything else raises \<^verbatim>\<open>TypeError\<close>.
\<close>

definition py_iter :: "pyval \<Rightarrow> exn + pyval list" where
  "py_iter v =
     (case v of
        PList xs \<Rightarrow> Inr xs
      | PStr s \<Rightarrow> Inr (map (\<lambda>c. PStr [c]) s)
      | PDict kvs \<Rightarrow> Inr (map (\<lambda>kv. PStr (fst kv)) kvs)
      | _ \<Rightarrow> Inl (Exn TypeError (quoted (type_name v) @ '' object is not iterable'')))"

text \<open>\<^verbatim>\<open>d[key]\<close> on a dict.\<close>

definition py_getitem :: "(string \<times> pyval) list \<Rightarrow> string \<Rightarrow> exn + pyval" where
  "py_getitem kvs key =
     (case map_of kvs key of
        None \<Rightarrow> Inl (Exn KeyError (repr_str key))
      | Some v \<Rightarrow> Inr v)"

text \<open>
  \<^verbatim>\<open>next((t["id"] for t in targets if t.get("is_correct")), None)\<close>: the \<^verbatim>\<open>id\<close> of the first
  target whose flag is true, \<^verbatim>\<open>None\<close> when there is none. The generator stops there, so
  later targets are not looked at.
\<close>

fun first_correct :: "pyval list \<Rightarrow> exn + pyval" where
  "first_correct [] = Inr PNone"
| "first_correct (t # ts) =
     (case t of
        PDict kvs \<Rightarrow>
          (if truthy (case map_of kvs ''is_correct'' of None \<Rightarrow> PNone | Some x \<Rightarrow> x)
           then py_getitem kvs ''id''
           else first_correct ts)
      | _ \<Rightarrow> Inl (no_attribute t ''get''))"

text \<open>\<^verbatim>\<open>str(trial_dir.relative_to(trials_root))\<close>.\<close>

definition relative_text :: "path \<Rightarrow> string" where
  "relative_text dir = (if dir = [] then ''.'' else py_join ''/'' dir)"

fun read_candidates ::
  "filesystem \<Rightarrow> path \<Rightarrow> string list \<Rightarrow> exn + (string \<times> (string \<times> string)) list" where
  "read_candidates F dir [] = Inr []"
| "read_candidates F dir (letter # letters) =
     (case read_image F dir (''3_Target_'' @ letter @ ''.jpg'') of
        Inl exc \<Rightarrow> Inl exc
      | Inr img \<Rightarrow>
          (case read_candidates F dir letters of
             Inl exc \<Rightarrow> Inl exc
           | Inr rest \<Rightarrow> Inr ((letter, img) # rest)))"

text \<open>The body of the loop of \<^verbatim>\<open>discover_trials\<close> up to the Trial Asset it appends, statement
  by statement (\<open>butlast meta_file\<close> is \<^verbatim>\<open>trial_dir\<close>).\<close>

definition load_trial :: "builtins \<Rightarrow> filesystem \<Rightarrow> path \<Rightarrow> exn + TrialAssets" where
  "load_trial B F meta_file =
     and_then (load_json F meta_file) (\<lambda>meta.
     and_then (py_get meta ''config'' (PDict [])) (\<lambda>config.
     and_then (py_get config ''shape'' (PStr ''?'')) (\<lambda>shape.
     and_then (py_get config ''complexity'' (PStr ''?'')) (\<lambda>complexity.
     and_then (py_get config ''magnitude'' (PStr ''?'')) (\<lambda>magnitude.
     and_then (py_get meta ''targets'' (PList [])) (\<lambda>targets.
     and_then (py_iter targets) (\<lambda>ts.
     and_then (first_correct ts) (\<lambda>correct_target.
       if correct_target = PNone
       then Inl (Exn ValueError (''No correct target found in '' @ path_text F meta_file))
       else
     and_then (read_image F (butlast meta_file) ''1_Reference_Front.jpg'') (\<lambda>front.
     and_then (read_image F (butlast meta_file) ''2_Reference_Back.jpg'') (\<lambda>back.
     and_then (read_candidates F (butlast meta_file) [''A'', ''B'', ''C'']) (\<lambda>cands.
       Inr \<lparr>label = relative_text (butlast meta_file),
            condition = py_str (repr_float B) shape @ '' | '' @ py_str (repr_float B) complexity
                        @ '' | '' @ py_str (repr_float B) magnitude,
            correct_answer = py_upper (py_str (repr_float B) correct_target),
            ref_front = front, ref_back = back, candidates = cands\<rparr>)))))))))))"

text \<open>
  The loop over the sorted metadata files: the Trial Asset is appended first, the test
  \<^verbatim>\<open>max_trials is not None and len(trials) >= max_trials\<close> comes after it.
\<close>

fun discover_loop ::
  "builtins \<Rightarrow> filesystem \<Rightarrow> int option \<Rightarrow> path list \<Rightarrow> TrialAssets list
   \<Rightarrow> exn + TrialAssets list" where
  "discover_loop B F max_trials [] trials = Inr trials"
| "discover_loop B F max_trials (meta_file # rest) trials =
     (case load_trial B F meta_file of
        Inl exc \<Rightarrow> Inl exc
      | Inr t \<Rightarrow>
          (if (case max_trials of None \<Rightarrow> False | Some n \<Rightarrow> int (length (trials @ [t])) \<ge> n)
           then Inr (trials @ [t])
           else discover_loop B F max_trials rest (trials @ [t])))"

text \<open>
  \<^verbatim>\<open>discover_trials\<close>: \<^verbatim>\<open>sorted\<close> compares paths component by component, and components
  as strings by code point.
\<close>

definition discover_trials ::
  "builtins \<Rightarrow> filesystem \<Rightarrow> int option \<Rightarrow> exn + TrialAssets list" where
  "discover_trials B F max_trials = discover_loop B F max_trials (sort (rglob_metadata F)) []"

text \<open>
  For reference: loading a list of metadata files one after the other, up to the first one
  that fails. The results of \<^verbatim>\<open>discover_trials\<close> are compared with it below.
\<close>

fun load_all :: "builtins \<Rightarrow> filesystem \<Rightarrow> path list \<Rightarrow> exn + TrialAssets list" where
  "load_all B F [] = Inr []"
| "load_all B F (meta_file # rest) =
     (case load_trial B F meta_file of
        Inl exc \<Rightarrow> Inl exc
      | Inr t \<Rightarrow>
          (case load_all B F rest of
             Inl exc \<Rightarrow> Inl exc
           | Inr ts \<Rightarrow> Inr (t # ts)))"

text \<open>
  The number of metadata files that \<^verbatim>\<open>discover_trials\<close> reads at most: all of them without a
  cap, and with a cap \<open>n\<close> as many as the loop admits.
\<close>

definition files_read :: "int option \<Rightarrow> path list \<Rightarrow> path list" where
  "files_read max_trials files =
     (case max_trials of None \<Rightarrow> files | Some n \<Rightarrow> take (max 1 (nat n)) files)"

text \<open>
  The targets of a metadata file mark none as correct: each target is an object whose
  \<^verbatim>\<open>is_correct\<close> is missing or false.
\<close>

fun no_target_marked :: "pyval list \<Rightarrow> bool" where
  "no_target_marked [] = True"
| "no_target_marked (t # ts) =
     (case t of
        PDict kvs \<Rightarrow>
          \<not> truthy (case map_of kvs ''is_correct'' of None \<Rightarrow> PNone | Some x \<Rightarrow> x)
          \<and> no_target_marked ts
      | _ \<Rightarrow> False)"

section \<open>Report aggregator\<close>

















section \<open>Example inputs\<close>

text \<open>
  Concrete inputs on which the definitions are evaluated below. The library parameters are
  given at the points that the examples need: \<^verbatim>\<open>json.loads\<close> on three texts, \<^verbatim>\<open>float\<close> on one
  string.
\<close>

definition example_builtins :: builtins where
  \<open>example_builtins =
     \<lparr>float_of_str = (\<lambda>s. if s = ''87'' then Some (Fin 87) else None),
      repr_float = (\<lambda>f. if f = Fin 87 then ''87.0'' else ''nan''),
      json_loads = (\<lambda>s.
        if s = ''{"answer":"b","confidence":87,"reasoning":"ok"}''
        then Inr (PDict [(''answer'', PStr ''b''), (''confidence'', PInt 87),
                         (''reasoning'', PStr ''ok'')])
        else if s = ''{"answer":"D"}'' then Inr (PDict [(''answer'', PStr ''D'')])
        else if s = ''[1, 2]'' then Inr (PList [PInt 1, PInt 2])
        else Inl (Exn JSONDecodeError ''Expecting value: line 1 column 1 (char 0)''))\<rparr>\<close>

definition instant :: timing where
  "instant =
     \<lparr>build_secs = (\<lambda>trial. 0), select_secs = (\<lambda>response. 0), parse_secs = (\<lambda>message. 0),
      normalize_secs = (\<lambda>raw. 0)\<rparr>"

definition example_trial :: TrialAssets where
  "example_trial =
     \<lparr>label = ''cube/t1'', condition = ''cube | low | 90'', correct_answer = ''B'',
      ref_front = (''image/jpeg'', ''AAAA''), ref_back = (''image/jpeg'', ''AAAB''),
      candidates = [(''A'', (''image/jpeg'', ''AAAC'')), (''B'', (''image/jpeg'', ''AAAD'')),
                    (''C'', (''image/jpeg'', ''AAAE''))]\<rparr>"

definition second_trial :: TrialAssets where
  "second_trial = example_trial\<lparr>label := ''cube/t2'', correct_answer := ''A''\<rparr>"

definition start_world :: world where
  "start_world = \<lparr>clock = 0, sent = []\<rparr>"

text \<open>
  A runner that raises a timeout on the first trial after 120 seconds and returns a
  well-formed reply on every other trial after one second.
\<close>

definition timeout_first_runner :: runner where
  "timeout_first_runner trial w =
     (if label trial = ''cube/t1''
      then (Inl (Exn (LibraryError ''APITimeoutError'') ''Request timed out.''), advance 120 w)
      else (Inr (PDict [(''answer'', PStr ''a''), (''confidence'', PInt 60)]), advance 1 w))"

text \<open>A runner whose reply is the decoded JSON array \<^verbatim>\<open>[1, 2]\<close>.\<close>

definition array_runner :: runner where
  "array_runner trial w = (Inr (PList [PInt 1, PInt 2]), advance 1 w)"

text \<open>
  A runner whose reply is a JSON object with a valid answer and an integer confidence of
  401 digits.
\<close>

definition huge_confidence_runner :: runner where
  "huge_confidence_runner trial w =
     (Inr (PDict [(''answer'', PStr ''A''), (''confidence'', PInt (10 ^ 400))]), advance 1 w)"

text \<open>
  A runner that hands the reply text \<^verbatim>\<open>[1, 2]\<close> to \<^verbatim>\<open>parse_json_response\<close>, as both adapters
  do with the text of the provider's response.
\<close>

definition array_text_runner :: runner where
  "array_text_runner trial w = (parse_json_response example_builtins ''[1, 2]'', advance 1 w)"

text \<open>A runner whose reply is the decoded JSON object \<^verbatim>\<open>{"answer":"D"}\<close>.\<close>

definition invalid_letter_runner :: runner where
  "invalid_letter_runner trial w = (Inr (PDict [(''answer'', PStr ''D'')]), advance 1 w)"

definition example_reply :: string where
  \<open>example_reply = ''{"answer":"b","confidence":87,"reasoning":"ok"}''\<close>

text \<open>
  A provider whose first call times out after 120 seconds and whose later calls answer
  after one second, and a provider that always answers after one second.
\<close>

definition flaky_provider :: provider where
  "flaky_provider w params =
     (if sent w = []
      then (Inl (Exn (LibraryError ''APITimeoutError'') ''Request timed out.''), 120)
      else (Inr [Some example_reply], 1))"

definition steady_provider :: provider where
  "steady_provider w params = (Inr [Some example_reply], 1)"

definition flaky_runner :: OpenAIStyleRunner where
  "flaky_runner =
     \<lparr>client = flaky_provider, runner_model_id = ''gpt-5.2'', runner_temperature = Fin (1 / 5),
      runner_timeout = 120, json_mode = True\<rparr>"

definition steady_runner :: OpenAIStyleRunner where
  "steady_runner = flaky_runner\<lparr>client := steady_provider\<rparr>"

text \<open>
  Building the request and taking the message from the response take a millisecond each,
  parsing a reply takes half a second, normalising it a quarter of a second.
\<close>

definition slow_local_steps :: timing where
  "slow_local_steps =
     \<lparr>build_secs = (\<lambda>trial. 1 / 1000), select_secs = (\<lambda>response. 1 / 1000),
      parse_secs = (\<lambda>message. 1 / 2), normalize_secs = (\<lambda>raw. 1 / 4)\<rparr>"

text \<open>
  A dataset of two trials, listed by the operating system in the order \<^verbatim>\<open>shape_b\<close>,
  \<^verbatim>\<open>shape_a\<close>. The metadata of \<^verbatim>\<open>shape_a\<close> marks target \<^verbatim>\<open>b\<close> as correct, the metadata of
  \<^verbatim>\<open>shape_b\<close> marks target \<^verbatim>\<open>D\<close>.
\<close>

definition metadata_of :: "pyval \<Rightarrow> pyval" where
  "metadata_of targets =
     PDict [(''config'', PDict [(''shape'', PStr ''cube''), (''complexity'', PStr ''low''),
                                (''magnitude'', PInt 90)]),
            (''targets'', targets)]"

definition targets_a :: pyval where
  "targets_a =
     PList [PDict [(''id'', PStr ''a''), (''is_correct'', PBool False)],
            PDict [(''id'', PStr ''b''), (''is_correct'', PBool True)],
            PDict [(''id'', PStr ''c''), (''is_correct'', PBool False)]]"

definition targets_d :: pyval where
  "targets_d =
     PList [PDict [(''id'', PStr ''A''), (''is_correct'', PBool False)],
            PDict [(''id'', PStr ''D''), (''is_correct'', PBool True)]]"


definition example_fs :: filesystem where
  "example_fs =
     \<lparr>rglob_metadata = [[''shape_b'', ''Metadata.json''], [''shape_a'', ''Metadata.json'']],
      load_json = (\<lambda>p. if p = [''shape_a'', ''Metadata.json''] then Inr (metadata_of targets_a)
                        else if p = [''shape_b'', ''Metadata.json''] then Inr (metadata_of targets_d)
                        else Inl (Exn OSError ''No such file or directory'')),
      read_bytes = (\<lambda>p. Inr ''jpeg''),
      guess_type = (\<lambda>n. Some ''image/jpeg''),
      b64encode = (\<lambda>bytes. ''anBlZw==''),
      path_text = (\<lambda>p. py_join ''/'' (''Trials'' # p))\<rparr>"









text \<open>
  Replies for \<^verbatim>\<open>parse_json_response\<close>: an object in a fence with the tag \<^verbatim>\<open>json\<close>, the same
  object between two sentences, and a fenced object with a triple backtick inside one of
  its strings. \<^verbatim>\<open>json.loads\<close> is given on the two objects and on the beginning of the second
  one up to the triple backtick.
\<close>

definition answer_object :: string where
  \<open>answer_object = ''{"answer":"A"}''\<close>

definition fenced_reply :: string where
  "fenced_reply = fence @ ''json'' @ [CHR 0x0A] @ answer_object @ [CHR 0x0A] @ fence"

definition prose_reply :: string where
  "prose_reply = ''Sure! '' @ answer_object @ '' Hope that helps.''"

definition backtick_object :: string where
  \<open>backtick_object =
     ''{"answer":"A","reasoning":"'' @ fence @ '' opens a code block"}''\<close>

definition fenced_backtick_reply :: string where
  "fenced_backtick_reply = fence @ ''json'' @ [CHR 0x0A] @ backtick_object @ [CHR 0x0A] @ fence"

definition reply_builtins :: builtins where
  \<open>reply_builtins =
     example_builtins\<lparr>json_loads := (\<lambda>s.
       if s = answer_object then Inr (PDict [(''answer'', PStr ''A'')])
       else if s = backtick_object
       then Inr (PDict [(''answer'', PStr ''A''),
                        (''reasoning'', PStr (fence @ '' opens a code block''))])
       else if s = ''{"answer":"A","reasoning":"''
       then Inl (Exn JSONDecodeError
                  ''Unterminated string starting at: line 1 column 27 (char 26)'')
       else Inl (Exn JSONDecodeError ''Expecting value: line 1 column 1 (char 0)''))\<rparr>\<close>

section \<open>Properties of the string operations\<close>




lemma py_lstrip_append:
  "py_lstrip (a @ b) = (if \<forall>c\<in>set a. py_isspace c then py_lstrip b else py_lstrip a @ b)"
  by (simp add: py_lstrip_def dropWhile_append)

lemma py_rstrip_append:
  "py_rstrip (a @ b) = (if \<forall>c\<in>set b. py_isspace c then py_rstrip a else a @ py_rstrip b)"
  by (simp add: py_rstrip_def dropWhile_append)

lemma py_rstrip_keeps:
  assumes "c \<in> set b" and "\<not> py_isspace c"
  shows "py_rstrip (a @ b) = a @ py_rstrip b"
proof -
  have "\<not> (\<forall>x\<in>set b. py_isspace x)"
    using assms by blast
  then show ?thesis
    by (simp only: py_rstrip_append if_False)
qed

lemma py_lstrip_id: "s \<noteq> [] \<Longrightarrow> \<not> py_isspace (hd s) \<Longrightarrow> py_lstrip s = s"
  by (cases s) (simp_all add: py_lstrip_def)

lemma py_rstrip_id: "s \<noteq> [] \<Longrightarrow> \<not> py_isspace (last s) \<Longrightarrow> py_rstrip s = s"
  by (cases s rule: rev_cases) (simp_all add: py_rstrip_def)





lemma py_lstrip_all: "\<forall>c\<in>set s. py_isspace c \<Longrightarrow> py_lstrip s = []"
  by (simp add: py_lstrip_def)

lemma py_rstrip_all: "\<forall>c\<in>set s. py_isspace c \<Longrightarrow> py_rstrip s = []"
  by (simp add: py_rstrip_def)

lemma set_py_lstrip: "set (py_lstrip s) \<subseteq> set s"
  by (auto simp: py_lstrip_def dest: set_dropWhileD)

lemma set_py_rstrip: "set (py_rstrip s) \<subseteq> set s"
  by (auto simp: py_rstrip_def dest: set_dropWhileD)

lemma py_lstrip_keeps:
  assumes "c \<in> set a" and "\<not> py_isspace c"
  shows "py_lstrip (a @ b) = py_lstrip a @ b"
proof -
  have "\<not> (\<forall>x\<in>set a. py_isspace x)"
    using assms by blast
  then show ?thesis
    by (simp only: py_lstrip_append if_False)
qed

lemma py_lstrip_skips: "\<forall>c\<in>set a. py_isspace c \<Longrightarrow> py_lstrip (a @ b) = py_lstrip b"
  by (simp add: py_lstrip_def)

lemma py_rstrip_skips:
  assumes "\<forall>c\<in>set b. py_isspace c"
  shows "py_rstrip (a @ b) = py_rstrip a"
proof -
  have "dropWhile py_isspace (rev b @ rev a) = dropWhile py_isspace (rev a)"
    using assms by (intro dropWhile_append2) simp
  then show ?thesis
    by (simp add: py_rstrip_def)
qed

text \<open>Stripping a text around a part whose first and last character are not white space.\<close>

lemma py_strip_around:
  assumes "obj \<noteq> []" and "\<not> py_isspace (hd obj)" and "\<not> py_isspace (last obj)"
  shows "py_strip (p @ obj @ q) = py_lstrip p @ obj @ py_rstrip q"
proof -
  have left: "py_lstrip (p @ obj @ q) = py_lstrip p @ obj @ q"
  proof (cases "\<forall>c\<in>set p. py_isspace c")
    case True
    have "py_lstrip (p @ obj @ q) = py_lstrip (obj @ q)"
      using True by (rule py_lstrip_skips)
    also have "\<dots> = obj @ q"
      using assms(1,2) by (intro py_lstrip_id) simp_all
    also have "\<dots> = py_lstrip p @ obj @ q"
      using True by (simp add: py_lstrip_all)
    finally show ?thesis .
  next
    case False
    then obtain c where "c \<in> set p" and "\<not> py_isspace c"
      by blast
    then show ?thesis
      by (rule py_lstrip_keeps)
  qed
  have "last obj \<in> set obj"
    using assms(1) by simp
  then have keep: "py_rstrip (py_lstrip p @ obj) = py_lstrip p @ py_rstrip obj"
    using assms(3) by (rule py_rstrip_keeps)
  have obj: "py_rstrip obj = obj"
    using assms(1,3) by (rule py_rstrip_id)
  have right: "py_rstrip ((py_lstrip p @ obj) @ q) = (py_lstrip p @ obj) @ py_rstrip q"
  proof (cases "\<forall>c\<in>set q. py_isspace c")
    case True
    have "py_rstrip ((py_lstrip p @ obj) @ q) = py_rstrip (py_lstrip p @ obj)"
      using True by (rule py_rstrip_skips)
    also have "\<dots> = (py_lstrip p @ obj) @ py_rstrip q"
      using True by (simp add: keep obj py_rstrip_all)
    finally show ?thesis .
  next
    case False
    then obtain c where "c \<in> set q" and "\<not> py_isspace c"
      by blast
    then show ?thesis
      by (rule py_rstrip_keeps)
  qed
  have "py_strip (p @ obj @ q) = py_rstrip ((py_lstrip p @ obj) @ q)"
    by (simp add: py_strip_def left)
  also have "\<dots> = py_lstrip p @ obj @ py_rstrip q"
    using right by simp
  finally show ?thesis .
qed

text \<open>\<^verbatim>\<open>find\<close> and \<^verbatim>\<open>rfind\<close> of a single character.\<close>

lemma py_find_char: "c \<notin> set p \<Longrightarrow> py_find (p @ c # r) [c] = Some (length p)"
  by (induction p) (auto simp: startswith_def)

lemma py_rfind_char:
  assumes "c \<notin> set q"
  shows "py_rfind (p @ c # q) [c] = Some (length p)"
proof -
  have "py_find (rev q @ c # rev p) [c] = Some (length (rev q))"
    using assms by (intro py_find_char) simp
  then show ?thesis
    by (simp add: py_rfind_def)
qed





section \<open>Properties of the trial runner\<close>

lemma run_loop_length: "length (fst (run_loop B T runner trials w)) = length trials"
proof (induction trials arbitrary: w)
  case Nil
  show ?case by simp
next
  case (Cons t ts)
  obtain r w1 where r: "run_trial B T runner t w = (r, w1)"
    by (cases "run_trial B T runner t w")
  obtain rs w2 where rs: "run_loop B T runner ts w1 = (rs, w2)"
    by (cases "run_loop B T runner ts w1")
  have "length rs = length ts"
    using Cons.IH [of w1] rs by simp
  then show ?case
    using r rs by simp
qed

lemma run_trial_label: "trial_label (fst (run_trial B T runner trial w)) = label trial"
  by (auto simp: run_trial_def failed_result_def Let_def split: prod.splits sum.splits)

lemma run_loop_labels: "map trial_label (fst (run_loop B T runner trials w)) = map label trials"
proof (induction trials arbitrary: w)
  case Nil
  show ?case by simp
next
  case (Cons t ts)
  obtain r w1 where r: "run_trial B T runner t w = (r, w1)"
    by (cases "run_trial B T runner t w")
  obtain rs w2 where rs: "run_loop B T runner ts w1 = (rs, w2)"
    by (cases "run_loop B T runner ts w1")
  have "trial_label r = label t"
    using run_trial_label [of B T runner t w] r by simp
  moreover have "map trial_label rs = map label ts"
    using Cons.IH [of w1] rs by simp
  ultimately show ?case
    using r rs by simp
qed

text \<open>
  The result at position \<open>i\<close> is the result of the loop body on trial \<open>i\<close>, started in the
  world that the first \<open>i\<close> trials have left: whatever happened to them, trial \<open>i\<close> is run.
\<close>

lemma run_loop_nth:
  "i < length trials \<Longrightarrow>
   fst (run_loop B T runner trials w) ! i =
     fst (run_trial B T runner (trials ! i) (snd (run_loop B T runner (take i trials) w)))"
proof (induction trials arbitrary: i w)
  case Nil
  then show ?case by simp
next
  case (Cons t ts)
  obtain r w1 where r: "run_trial B T runner t w = (r, w1)"
    by (cases "run_trial B T runner t w")
  obtain rs w2 where rs: "run_loop B T runner ts w1 = (rs, w2)"
    by (cases "run_loop B T runner ts w1")
  show ?case
  proof (cases i)
    case 0
    then show ?thesis using r rs by simp
  next
    case (Suc j)
    obtain ps w3 where ps: "run_loop B T runner (take j ts) w1 = (ps, w3)"
      by (cases "run_loop B T runner (take j ts) w1")
    have "j < length ts" using Cons.prems Suc by simp
    then have "fst (run_loop B T runner ts w1) ! j =
        fst (run_trial B T runner (ts ! j) (snd (run_loop B T runner (take j ts) w1)))"
      by (rule Cons.IH)
    then show ?thesis using r rs ps Suc by simp
  qed
qed

lemma run_trials_results:
  "results (fst (run_trials B T nm mid runner trials w)) = fst (run_loop B T runner trials w)"
  by (simp add: run_trials_def split: prod.splits)

lemma run_trials_world:
  "snd (run_trials B T nm mid runner trials w) = snd (run_loop B T runner trials w)"
  by (simp add: run_trials_def split: prod.splits)

lemma run_trials_single:
  "results (fst (run_trials B T nm mid runner [trial] w)) ! 0 = fst (run_trial B T runner trial w)"
  by (simp add: run_trials_results split: prod.splits)

lemma run_trial_runner_raises:
  assumes "fst (runner trial w) = Inl exc"
  shows "fst (run_trial B T runner trial w) =
           failed_result trial (elapsed_ms (clock w) (clock (snd (runner trial w)))) exc"
  using assms by (cases "runner trial w") (simp add: run_trial_def)

lemma normalize_reply_not_dict:
  assumes "\<forall>kvs. raw \<noteq> PDict kvs"
  shows "normalize_reply B raw = Inl (no_attribute raw ''get'')"
  using assms by (cases raw) (simp_all add: normalize_reply_def py_get_def)

lemma run_trial_normalize_raises:
  assumes "fst (runner trial w) = Inr raw" and "normalize_reply B raw = Inl exc"
  shows "fst (run_trial B T runner trial w) =
           failed_result trial
             (elapsed_ms (clock w) (clock (snd (runner trial w)) + normalize_secs T raw)) exc"
  using assms by (cases "runner trial w") (simp add: run_trial_def advance_def)

text \<open>
  Claim C1. Whenever the runner (the provider call together with the parsing of its reply)
  raises on a trial, \<^verbatim>\<open>run_trials\<close> records for that trial a failed Trial Result whose error is
  the text of the exception and whose prediction is absent, and the Model Run still has one
  Trial Result per trial, in the order of the input.
\<close>

theorem run_trials_isolates_failure:
  assumes "i < length trials"
    and "fst (runner (trials ! i) (snd (run_trials B T nm mid runner (take i trials) w))) = Inl exc"
  shows "length (results (fst (run_trials B T nm mid runner trials w))) = length trials
       \<and> map trial_label (results (fst (run_trials B T nm mid runner trials w))) = map label trials
       \<and> error (results (fst (run_trials B T nm mid runner trials w)) ! i) = Some (exn_str exc)
       \<and> prediction (results (fst (run_trials B T nm mid runner trials w)) ! i) = None
       \<and> \<not> success (results (fst (run_trials B T nm mid runner trials w)) ! i)"
proof -
  let ?wi = "snd (run_loop B T runner (take i trials) w)"
  have raised: "fst (runner (trials ! i) ?wi) = Inl exc"
    using assms(2) by (simp add: run_trials_world)
  have "results (fst (run_trials B T nm mid runner trials w)) ! i =
          fst (run_trial B T runner (trials ! i) ?wi)"
    using assms(1) by (simp add: run_trials_results run_loop_nth)
  also have "\<dots> = failed_result (trials ! i)
                     (elapsed_ms (clock ?wi) (clock (snd (runner (trials ! i) ?wi)))) exc"
    using raised by (rule run_trial_runner_raises)
  finally have "results (fst (run_trials B T nm mid runner trials w)) ! i =
      failed_result (trials ! i) (elapsed_ms (clock ?wi) (clock (snd (runner (trials ! i) ?wi)))) exc" .
  then show ?thesis
    by (simp add: failed_result_def run_trials_results run_loop_length run_loop_labels)
qed

theorem run_trials_isolates_failure_witness:
  "(0::nat) < length [example_trial, second_trial]
   \<and> fst (timeout_first_runner ([example_trial, second_trial] ! 0)
        (snd (run_trials example_builtins instant ''gpt'' None timeout_first_runner
               (take 0 [example_trial, second_trial]) start_world)))
     = Inl (Exn (LibraryError ''APITimeoutError'') ''Request timed out.'')
   \<and> length (results (fst (run_trials example_builtins instant ''gpt'' None timeout_first_runner
        [example_trial, second_trial] start_world))) = 2
   \<and> error (results (fst (run_trials example_builtins instant ''gpt'' None timeout_first_runner
        [example_trial, second_trial] start_world)) ! 0) = Some ''Request timed out.''
   \<and> prediction (results (fst (run_trials example_builtins instant ''gpt'' None
        timeout_first_runner [example_trial, second_trial] start_world)) ! 0) = None"
proof -
  have h1: "(0::nat) < length [example_trial, second_trial]" by simp
  have h2: "fst (timeout_first_runner ([example_trial, second_trial] ! 0)
        (snd (run_trials example_builtins instant ''gpt'' None timeout_first_runner
               (take 0 [example_trial, second_trial]) start_world)))
     = Inl (Exn (LibraryError ''APITimeoutError'') ''Request timed out.'')"
    by (simp add: timeout_first_runner_def example_trial_def)
  show ?thesis
    using run_trials_isolates_failure
      [of 0 "[example_trial, second_trial]" timeout_first_runner example_builtins instant
          "''gpt''" None start_world "Exn (LibraryError ''APITimeoutError'') ''Request timed out.''"]
      h1 h2
    by simp
qed

section \<open>Properties of the normalisers\<close>

lemma bit_length_bounds:
  "0 < n \<Longrightarrow> 2 ^ (bit_length n - 1) \<le> n \<and> n < 2 ^ bit_length n"
proof (induction n rule: bit_length.induct)
  case (1 n)
  show ?case
  proof (cases "n div 2 = 0")
    case True
    with "1.prems" have "n = 1" by (simp add: div_eq_0_iff)
    then show ?thesis by (simp add: bit_length.simps)
  next
    case False
    then have pos: "0 < n div 2" by simp
    with "1.prems" "1.IH"
    have ih: "2 ^ (bit_length (n div 2) - 1) \<le> n div 2" "n div 2 < 2 ^ bit_length (n div 2)"
      by simp_all
    have bl: "bit_length n = Suc (bit_length (n div 2))"
      using "1.prems" by (subst bit_length.simps) simp
    obtain k where k: "bit_length (n div 2) = Suc k"
      using pos by (subst (asm) bit_length.simps [of "n div 2"]) (auto simp: bit_length.simps)
    have "2 ^ Suc k \<le> 2 * (n div 2)" using ih(1) k by simp
    also have "\<dots> \<le> n" by simp
    finally have lower: "2 ^ (bit_length n - 1) \<le> n" using bl k by simp
    have "n < 2 * (n div 2) + 2" by linarith
    also have "\<dots> \<le> 2 * 2 ^ bit_length (n div 2)" using ih(2) by simp
    finally have "n < 2 ^ bit_length n" using bl by simp
    with lower show ?thesis by simp
  qed
qed

lemma round_lower:
  assumes "(2::nat) ^ k \<le> m" and "52 \<le> k"
  shows "2 ^ k \<le> (m div 2 ^ (bit_length m - 53)) * 2 ^ (bit_length m - 53)"
proof -
  define e where "e = bit_length m - 53"
  have m_pos: "0 < m"
    using assms(1) by (meson less_le_trans zero_less_numeral zero_less_power)
  have bounds: "2 ^ (bit_length m - 1) \<le> m" "m < 2 ^ bit_length m"
    using bit_length_bounds [OF m_pos] by simp_all
  have "(2::nat) ^ k < 2 ^ bit_length m"
    using assms(1) bounds(2) by linarith
  then have b_big: "k < bit_length m"
    using power_less_imp_less_exp [of 2 k "bit_length m"] by simp
  then have split: "bit_length m - 1 = 52 + e"
    using assms(2) by (simp add: e_def)
  have "(2::nat) ^ 52 * 2 ^ e \<le> m"
    using bounds(1) unfolding split power_add .
  then have "(2::nat) ^ 52 \<le> m div 2 ^ e"
    using less_eq_div_iff_mult_less_eq [of "2 ^ e" "2 ^ 52" m] by simp
  then have "(2::nat) ^ 52 * 2 ^ e \<le> (m div 2 ^ e) * 2 ^ e"
    by (rule mult_le_mono1)
  moreover have "(2::nat) ^ k \<le> 2 ^ 52 * 2 ^ e"
  proof -
    have "k \<le> 52 + e" using b_big split by linarith
    then have "(2::nat) ^ k \<le> 2 ^ (52 + e)"
      by (rule power_increasing) simp
    then show ?thesis unfolding power_add .
  qed
  ultimately show ?thesis
    unfolding e_def by (rule order_trans [rotated])
qed

text \<open>An integer of magnitude \<open>2 ^ 1024\<close> or more has no double.\<close>

lemma int_to_double_overflow:
  assumes "2 ^ 1024 \<le> \<bar>n\<bar>"
  shows "int_to_double n = None"
proof -
  define m where "m = nat \<bar>n\<bar>"
  define e where "e = bit_length m - 53"
  have m_big: "(2::nat) ^ 1024 \<le> m"
  proof -
    have "int ((2::nat) ^ 1024) \<le> \<bar>n\<bar>" using assms by simp
    then show ?thesis unfolding m_def by linarith
  qed
  have q_big: "2 ^ 1024 \<le> (m div 2 ^ e) * 2 ^ e"
    unfolding e_def using m_big by (rule round_lower) simp
  have "(m div 2 ^ e) * 2 ^ e \<le> (m div 2 ^ e + 1) * 2 ^ e"
    by simp
  with q_big have q1_big: "2 ^ 1024 \<le> (m div 2 ^ e + 1) * 2 ^ e"
    by (rule order_trans)
  show ?thesis
    unfolding int_to_double_def Let_def m_def [symmetric] e_def [symmetric]
    using q_big q1_big by simp
qed

text \<open>An integer of magnitude below \<open>2 ^ 53\<close> is its own double.\<close>

lemma int_to_double_exact:
  assumes "\<bar>n\<bar> < 2 ^ 53"
  shows "int_to_double n = Some n"
proof -
  define m where "m = nat \<bar>n\<bar>"
  have m_small: "m < 2 ^ 53"
  proof -
    have "\<bar>n\<bar> < int ((2::nat) ^ 53)" using assms by simp
    then show ?thesis unfolding m_def by linarith
  qed
  have e: "bit_length m - 53 = 0"
  proof (cases "m = 0")
    case True
    then show ?thesis by (simp add: bit_length.simps)
  next
    case False
    then have "2 ^ (bit_length m - 1) \<le> m"
      using bit_length_bounds [of m] by simp
    with m_small have "(2::nat) ^ (bit_length m - 1) < 2 ^ 53" by linarith
    then have "bit_length m - 1 < 53"
      using power_less_imp_less_exp [of 2 "bit_length m - 1" 53] by simp
    then show ?thesis by simp
  qed
  have not_big: "\<not> 2 ^ 1024 \<le> m"
  proof -
    have "(2::nat) ^ 53 \<le> 2 ^ 1024" by (rule power_increasing) simp_all
    with m_small show ?thesis by linarith
  qed
  have "sgn n * int m = n"
    unfolding m_def by (simp add: mult_sgn_abs)
  then show ?thesis
    unfolding int_to_double_def Let_def m_def [symmetric] e
    using not_big by simp
qed

lemma clamp_range:
  "\<exists>q. py_max (Fin 0) (py_min (Fin 100) num) = Fin q \<and> 0 \<le> q \<and> q \<le> 100"
  by (cases num) (auto simp: py_max_def py_min_def)

lemma clamp_fixed:
  "0 \<le> q \<Longrightarrow> q \<le> 100 \<Longrightarrow> py_max (Fin 0) (py_min (Fin 100) (Fin q)) = Fin q"
  by (auto simp: py_max_def py_min_def)

text \<open>
  What holds of \<^verbatim>\<open>normalize_confidence\<close>: a value it returns lies in \<open>[0, 100]\<close>; it returns
  that value unchanged when applied to it; and the only exception that leaves it is the
  \<^verbatim>\<open>OverflowError\<close> of an integer beyond the range of a double.
\<close>

lemma normalize_confidence_range:
  assumes "normalize_confidence B val = Inr (Some c)"
  shows "\<exists>q. c = Fin q \<and> 0 \<le> q \<and> q \<le> 100"
proof -
  from assms obtain num where "c = py_max (Fin 0) (py_min (Fin 100) num)"
    by (auto simp: normalize_confidence_def split: if_splits sum.splits)
  then show ?thesis using clamp_range [of num] by auto
qed

lemma normalize_confidence_idempotent:
  assumes "normalize_confidence B val = Inr (Some c)"
  shows "normalize_confidence B (PFloat c) = Inr (Some c)"
proof -
  from normalize_confidence_range [OF assms]
  obtain q where "c = Fin q" "0 \<le> q" "q \<le> 100" by auto
  then show ?thesis by (simp add: normalize_confidence_def clamp_fixed)
qed

lemma normalize_confidence_raises_only_overflow:
  assumes "normalize_confidence B val = Inl exc"
  shows "\<exists>n. val = PInt n \<and> int_to_double n = None
           \<and> exc = Exn OverflowError ''int too large to convert to float''"
  using assms
  by (cases val)
     (auto simp: normalize_confidence_def isinstance_def float_type_error_def
           split: if_splits option.splits)

text \<open>
  Claim C2. \<^verbatim>\<open>normalize_confidence\<close> is claimed never to raise. On the integer \<open>10 ^ 400\<close>
  (a JSON number of 401 digits, which \<^verbatim>\<open>json.loads\<close> decodes to an \<^verbatim>\<open>int\<close>) the conversion
  \<^verbatim>\<open>float(val)\<close> raises \<^verbatim>\<open>OverflowError\<close>, which the handler for \<^verbatim>\<open>TypeError\<close> and
  \<^verbatim>\<open>ValueError\<close> does not cover: the exception leaves the function.
\<close>

theorem normalize_confidence_overflow_raises:
  "normalize_confidence B (PInt (10 ^ 400))
     = Inl (Exn OverflowError ''int too large to convert to float'')"
proof -
  have "(2::int) ^ 1024 \<le> \<bar>10 ^ 400\<bar>" by simp
  then have "int_to_double (10 ^ 400) = None" by (rule int_to_double_overflow)
  then show ?thesis by (simp add: normalize_confidence_def isinstance_def)
qed

section \<open>Properties of the Trial Results\<close>

lemma normalize_answer_cases:
  "normalize_answer B val \<in> {None, Some ''A'', Some ''B'', Some ''C''}"
  by (auto simp: normalize_answer_def Let_def)

lemma normalize_reply_answer:
  assumes "normalize_reply B raw = Inr (answer, conf, reason)"
  shows "answer \<in> {None, Some ''A'', Some ''B'', Some ''C''}"
proof -
  from assms obtain a where "answer = normalize_answer B a"
    by (auto simp: normalize_reply_def Let_def split: sum.splits)
  then show ?thesis using normalize_answer_cases [of B a] by simp
qed

lemma normalize_reply_dict:
  assumes "normalize_confidence B (case map_of kvs ''confidence'' of None \<Rightarrow> PNone | Some x \<Rightarrow> x)
             = Inr conf"
  shows "\<exists>answer reason. normalize_reply B (PDict kvs) = Inr (answer, conf, reason)"
  using assms by (simp add: normalize_reply_def py_get_def Let_def)

text \<open>The three shapes of a Trial Result, by what the loop body met.\<close>

lemma run_trial_cases:
  obtains (runner_raised) exc ms where
      "fst (runner trial w) = Inl exc"
      "fst (run_trial B T runner trial w) = failed_result trial ms exc"
  | (normalize_raised) raw exc ms where
      "fst (runner trial w) = Inr raw" "normalize_reply B raw = Inl exc"
      "fst (run_trial B T runner trial w) = failed_result trial ms exc"
  | (recorded) raw answer conf reason ms where
      "fst (runner trial w) = Inr raw" "normalize_reply B raw = Inr (answer, conf, reason)"
      "fst (run_trial B T runner trial w) =
         \<lparr>trial_label = label trial, condition = TrialAssets.condition trial,
          gold = correct_answer trial, prediction = answer, confidence = conf,
          reasoning = reason, latency_ms = Some ms,
          success = (answer \<in> {Some ''A'', Some ''B'', Some ''C''}), error = None\<rparr>"
proof (cases "fst (runner trial w)")
  case (Inl exc)
  then show ?thesis
    using run_trial_runner_raises [of runner trial w exc B T] runner_raised by blast
next
  case (Inr raw)
  show ?thesis
  proof (cases "normalize_reply B raw")
    case (Inl exc)
    then show ?thesis
      using run_trial_normalize_raises [of runner trial w raw B exc T] Inr normalize_raised
      by blast
  next
    case norm: (Inr triple)
    obtain answer conf reason where triple: "triple = (answer, conf, reason)"
      by (cases triple)
    have "fst (run_trial B T runner trial w) =
         \<lparr>trial_label = label trial, condition = TrialAssets.condition trial,
          gold = correct_answer trial, prediction = answer, confidence = conf,
          reasoning = reason,
          latency_ms = Some (elapsed_ms (clock w) (clock (snd (runner trial w)))),
          success = (answer \<in> {Some ''A'', Some ''B'', Some ''C''}), error = None\<rparr>"
      using Inr norm triple by (cases "runner trial w") (simp add: run_trial_def Let_def)
    then show ?thesis
      using Inr norm triple recorded by blast
  qed
qed

text \<open>
  Claim C10. When the reply decodes to a JSON value that is not an object (here: what
  \<^verbatim>\<open>parse_json_response\<close> returned for the reply is not a dict, so the parse step did not
  guarantee one), the trial is recorded as failed, with no prediction and with the text of
  the \<^verbatim>\<open>AttributeError\<close> of \<^verbatim>\<open>raw.get\<close> as its error, and the run has a result for every trial.
\<close>

theorem non_object_reply_is_failed_result:
  assumes "i < length trials"
    and "runner (trials ! i) (snd (run_trials B T nm mid runner (take i trials) w))
           = (parse_json_response B text, w')"
    and "parse_json_response B text = Inr v"
    and "\<forall>kvs. v \<noteq> PDict kvs"
  shows "length (results (fst (run_trials B T nm mid runner trials w))) = length trials
       \<and> \<not> success (results (fst (run_trials B T nm mid runner trials w)) ! i)
       \<and> prediction (results (fst (run_trials B T nm mid runner trials w)) ! i) = None
       \<and> error (results (fst (run_trials B T nm mid runner trials w)) ! i)
           = Some (quoted (type_name v) @ '' object has no attribute '' @ quoted ''get'')"
proof -
  let ?wi = "snd (run_loop B T runner (take i trials) w)"
  have out: "fst (runner (trials ! i) ?wi) = Inr v"
    using assms(2,3) by (simp add: run_trials_world)
  have "normalize_reply B v = Inl (no_attribute v ''get'')"
    using assms(4) by (rule normalize_reply_not_dict)
  with out have "fst (run_trial B T runner (trials ! i) ?wi) =
      failed_result (trials ! i)
        (elapsed_ms (clock ?wi) (clock (snd (runner (trials ! i) ?wi)) + normalize_secs T v))
        (no_attribute v ''get'')"
    by (rule run_trial_normalize_raises)
  moreover have "results (fst (run_trials B T nm mid runner trials w)) ! i =
          fst (run_trial B T runner (trials ! i) ?wi)"
    using assms(1) by (simp add: run_trials_results run_loop_nth)
  ultimately show ?thesis
    by (simp add: failed_result_def no_attribute_def run_trials_results run_loop_length)
qed

lemma parse_array_text:
  "parse_json_response example_builtins ''[1, 2]'' = Inr (PList [PInt 1, PInt 2])"
  by (simp add: parse_json_response_def strip_fence_def narrow_braces_def example_builtins_def py_strip_def py_lstrip_def
      py_rstrip_def py_isspace_def startswith_def fence_def)

theorem non_object_reply_is_failed_result_witness:
  "(1::nat) < length [example_trial, second_trial]
   \<and> parse_json_response example_builtins ''[1, 2]'' = Inr (PList [PInt 1, PInt 2])
   \<and> length (results (fst (run_trials example_builtins instant ''gpt'' None array_text_runner
        [example_trial, second_trial] start_world))) = 2
   \<and> prediction (results (fst (run_trials example_builtins instant ''gpt'' None array_text_runner
        [example_trial, second_trial] start_world)) ! 1) = None
   \<and> error (results (fst (run_trials example_builtins instant ''gpt'' None array_text_runner
        [example_trial, second_trial] start_world)) ! 1)
      = Some (quoted ''list'' @ '' object has no attribute '' @ quoted ''get'')"
proof -
  have h1: "(1::nat) < length [example_trial, second_trial]" by simp
  have h2: "array_text_runner ([example_trial, second_trial] ! 1)
        (snd (run_trials example_builtins instant ''gpt'' None array_text_runner
               (take 1 [example_trial, second_trial]) start_world))
      = (parse_json_response example_builtins ''[1, 2]'',
         advance 1 (snd (run_trials example_builtins instant ''gpt'' None array_text_runner
               (take 1 [example_trial, second_trial]) start_world)))"
    by (simp add: array_text_runner_def)
  have h4: "\<forall>kvs. PList [PInt 1, PInt 2] \<noteq> PDict kvs" by simp
  show ?thesis
    using non_object_reply_is_failed_result
      [of 1 "[example_trial, second_trial]" array_text_runner example_builtins instant
          "''gpt''" None start_world "''[1, 2]''" _ "PList [PInt 1, PInt 2]", OF h1 h2 parse_array_text h4]
      parse_array_text
    by simp
qed

text \<open>
  Claim C6, as stated: the error field is present if and only if the provider call or the
  parsing raised. It fails on a reply that decodes to the JSON array \<^verbatim>\<open>[1, 2]\<close>: the runner
  (call and parsing) returns normally, and the Trial Result carries an error all the same,
  the \<^verbatim>\<open>AttributeError\<close> of \<^verbatim>\<open>raw.get\<close>.
\<close>

theorem error_present_though_call_and_parse_succeeded:
  "fst (array_runner example_trial start_world) = Inr (PList [PInt 1, PInt 2])
   \<and> error (results (fst (run_trials example_builtins instant ''gpt'' None array_runner
        [example_trial] start_world)) ! 0)
      = Some (quoted ''list'' @ '' object has no attribute '' @ quoted ''get'')"
proof -
  have out: "fst (array_runner example_trial start_world) = Inr (PList [PInt 1, PInt 2])"
    by (simp add: array_runner_def)
  have "normalize_reply example_builtins (PList [PInt 1, PInt 2])
          = Inl (no_attribute (PList [PInt 1, PInt 2]) ''get'')"
    by (rule normalize_reply_not_dict) simp
  with out have "fst (run_trial example_builtins instant array_runner example_trial start_world)
      = failed_result example_trial
          (elapsed_ms (clock start_world)
             (clock (snd (array_runner example_trial start_world))
              + normalize_secs instant (PList [PInt 1, PInt 2])))
          (no_attribute (PList [PInt 1, PInt 2]) ''get'')"
    by (rule run_trial_normalize_raises)
  then have "error (fst (run_trial example_builtins instant array_runner example_trial start_world))
      = Some (quoted ''list'' @ '' object has no attribute '' @ quoted ''get'')"
    by (simp add: failed_result_def no_attribute_def)
  moreover have "results (fst (run_trials example_builtins instant ''gpt'' None array_runner
        [example_trial] start_world)) ! 0
      = fst (run_trial example_builtins instant array_runner example_trial start_world)"
    by (rule run_trials_single)
  ultimately show ?thesis using out by simp
qed

text \<open>
  Claim C6, amended. For every Trial Result of \<^verbatim>\<open>run_trials\<close>: \<open>is_correct\<close> is \<open>success\<close> and
  \<open>prediction = gold\<close>; without success the prediction is absent; with success the prediction
  is one of A, B, C and the error is absent; the error is present when the runner (provider
  call or parsing) raised and also when its reply is not a JSON object; the error is absent
  when the reply is a JSON object whose confidence \<^verbatim>\<open>normalize_confidence\<close> returns from (so
  such a reply without a valid letter has no success and no error).
\<close>

theorem trial_result_invariants:
  fixes B :: builtins and T :: timing and nm :: string and mid :: "string option"
    and runner :: runner and trials :: "TrialAssets list" and w :: world and i :: nat
  assumes "i < length trials"
  defines "r \<equiv> results (fst (run_trials B T nm mid runner trials w)) ! i"
    and "out \<equiv> fst (runner (trials ! i) (snd (run_trials B T nm mid runner (take i trials) w)))"
  shows "(is_correct r \<longleftrightarrow> success r \<and> prediction r = Some (gold r))
       \<and> (\<not> success r \<longrightarrow> prediction r = None)
       \<and> (success r \<longrightarrow> prediction r \<in> {Some ''A'', Some ''B'', Some ''C''} \<and> error r = None)
       \<and> ((\<exists>exc. out = Inl exc) \<or> (\<exists>v. out = Inr v \<and> (\<forall>kvs. v \<noteq> PDict kvs))
            \<longrightarrow> error r \<noteq> None)
       \<and> (\<forall>kvs conf. out = Inr (PDict kvs)
            \<and> normalize_confidence B
                 (case map_of kvs ''confidence'' of None \<Rightarrow> PNone | Some x \<Rightarrow> x) = Inr conf
            \<longrightarrow> error r = None)"
proof -
  let ?wi = "snd (run_loop B T runner (take i trials) w)"
  have r: "r = fst (run_trial B T runner (trials ! i) ?wi)"
    using assms(1) by (simp add: r_def run_trials_results run_loop_nth)
  have out: "out = fst (runner (trials ! i) ?wi)"
    by (simp add: out_def run_trials_world)
  show ?thesis
  proof (cases rule: run_trial_cases [of runner "trials ! i" ?wi B T])
    case (runner_raised exc ms)
    then show ?thesis
      by (simp add: r out failed_result_def is_correct_def)
  next
    case (normalize_raised raw exc ms)
    have "\<not> (\<exists>kvs conf. raw = PDict kvs
            \<and> normalize_confidence B
                 (case map_of kvs ''confidence'' of None \<Rightarrow> PNone | Some x \<Rightarrow> x) = Inr conf)"
    proof
      assume "\<exists>kvs conf. raw = PDict kvs
            \<and> normalize_confidence B
                 (case map_of kvs ''confidence'' of None \<Rightarrow> PNone | Some x \<Rightarrow> x) = Inr conf"
      then obtain kvs conf where "raw = PDict kvs"
        "normalize_confidence B
           (case map_of kvs ''confidence'' of None \<Rightarrow> PNone | Some x \<Rightarrow> x) = Inr conf"
        by blast
      then have "\<exists>answer reason. normalize_reply B raw = Inr (answer, conf, reason)"
        using normalize_reply_dict [of B kvs conf] by simp
      with normalize_raised(2) show False by simp
    qed
    with normalize_raised(1,3) show ?thesis
      by (simp add: r out failed_result_def is_correct_def)
  next
    case (recorded raw answer conf reason ms)
    have "answer \<in> {None, Some ''A'', Some ''B'', Some ''C''}"
      using recorded(2) by (rule normalize_reply_answer)
    moreover have "\<exists>kvs. raw = PDict kvs"
      using recorded(2) normalize_reply_not_dict [of raw B] by force
    ultimately show ?thesis
      using recorded by (auto simp: r out is_correct_def)
  qed
qed

theorem trial_result_invariants_witness:
  "error (results (fst (run_trials example_builtins instant ''gpt'' None array_runner
      [example_trial] start_world)) ! 0) \<noteq> None
   \<and> error (results (fst (run_trials example_builtins instant ''gpt'' None invalid_letter_runner
      [example_trial] start_world)) ! 0) = None
   \<and> prediction (results (fst (run_trials example_builtins instant ''gpt'' None
      invalid_letter_runner [example_trial] start_world)) ! 0) = None
   \<and> \<not> success (results (fst (run_trials example_builtins instant ''gpt'' None
      invalid_letter_runner [example_trial] start_world)) ! 0)"
proof -
  have h: "(0::nat) < length [example_trial]" by simp
  have a: "fst (array_runner ([example_trial] ! 0)
      (snd (run_trials example_builtins instant ''gpt'' None array_runner
         (take 0 [example_trial]) start_world))) = Inr (PList [PInt 1, PInt 2])"
    by (simp add: array_runner_def)
  have b: "fst (invalid_letter_runner ([example_trial] ! 0)
      (snd (run_trials example_builtins instant ''gpt'' None invalid_letter_runner
         (take 0 [example_trial]) start_world))) = Inr (PDict [(''answer'', PStr ''D'')])"
    by (simp add: invalid_letter_runner_def)
  have c: "normalize_confidence example_builtins
      (case map_of [(''answer'', PStr ''D'')] ''confidence'' of None \<Rightarrow> PNone | Some x \<Rightarrow> x)
      = Inr None"
    by (simp add: normalize_confidence_def)
  have d: "\<not> success (results (fst (run_trials example_builtins instant ''gpt'' None
      invalid_letter_runner [example_trial] start_world)) ! 0)"
    by (simp add: run_trials_results run_trial_def invalid_letter_runner_def normalize_reply_def
        py_get_def normalize_answer_def normalize_confidence_def py_str_def py_strip_def
        py_lstrip_def py_rstrip_def py_isspace_def py_upper_def py_upper_char_def Let_def)
  show ?thesis
    using trial_result_invariants
        [of 0 "[example_trial]" example_builtins instant "''gpt''" None array_runner start_world]
      trial_result_invariants
        [of 0 "[example_trial]" example_builtins instant "''gpt''" None invalid_letter_runner
            start_world]
      h a b c d
    by simp
qed

section \<open>Properties of the chat-completions adapter\<close>

lemma create_sent: "sent (snd (create api params w)) = sent w @ [params]"
  by (simp add: create_def split: prod.splits)

lemma create_outcome: "fst (create api params w) = fst (api w params)"
  by (simp add: create_def split: prod.splits)

lemma call_provider_plain:
  assumes "\<not> json_mode self"
  shows "call_provider self content w = create (client self) (request_params self content False) w"
proof (cases "create (client self) (request_params self content False) w")
  case (Pair outcome w1)
  then show ?thesis
    using assms by (cases outcome) (simp_all add: call_provider_def)
qed

lemma call_provider_first_ok:
  assumes "fst (create (client self) (request_params self content (json_mode self)) w) = Inr resp"
  shows "call_provider self content w
           = create (client self) (request_params self content (json_mode self)) w"
  using assms
  by (cases "create (client self) (request_params self content (json_mode self)) w")
     (simp add: call_provider_def)

lemma call_provider_retry:
  assumes "json_mode self"
    and "fst (create (client self) (request_params self content True) w) = Inl exc"
  shows "call_provider self content w
           = create (client self) (request_params self content False)
               (snd (create (client self) (request_params self content True) w))"
  using assms
  by (cases "create (client self) (request_params self content True) w")
     (simp add: call_provider_def)

text \<open>
  Claim C9, as stated: with structured mode enabled, a failure other than the provider
  rejecting that mode is propagated without a retry. It fails on a provider whose first call
  times out: the adapter sends a second request, without \<^verbatim>\<open>response_format\<close>, and returns its
  response; the timeout is not propagated.
\<close>

theorem timeout_is_retried_not_propagated:
  "fst (flaky_provider start_world (request_params flaky_runner [Text USER_INSTRUCTION] True))
     = Inl (Exn (LibraryError ''APITimeoutError'') ''Request timed out.'')
   \<and> fst (call_provider flaky_runner [Text USER_INSTRUCTION] start_world)
     = Inr [Some example_reply]
   \<and> sent (snd (call_provider flaky_runner [Text USER_INSTRUCTION] start_world))
     = [request_params flaky_runner [Text USER_INSTRUCTION] True,
        request_params flaky_runner [Text USER_INSTRUCTION] False]"
  by (simp add: call_provider_def create_def flaky_provider_def flaky_runner_def
      start_world_def)

text \<open>
  Claim C9, amended. With structured mode enabled, any failure of the first provider call,
  whatever it is, triggers exactly one retry with structured mode disabled, and the outcome
  of the retry (response or failure) is the outcome of the call; a first call that succeeds
  is not retried; with structured mode disabled there is one call and its failure is
  propagated at once. The requests the provider receives are listed by \<open>sent\<close>.
\<close>

theorem call_provider_retry_policy:
  fixes self :: OpenAIStyleRunner and content :: "part list" and w :: world
  defines "structured \<equiv> request_params self content True"
    and "plain \<equiv> request_params self content False"
  shows "(\<not> json_mode self \<longrightarrow>
            fst (call_provider self content w) = fst (client self w plain)
          \<and> sent (snd (call_provider self content w)) = sent w @ [plain])
       \<and> (json_mode self \<and> (\<exists>resp. fst (client self w structured) = Inr resp) \<longrightarrow>
            fst (call_provider self content w) = fst (client self w structured)
          \<and> sent (snd (call_provider self content w)) = sent w @ [structured])
       \<and> (json_mode self \<and> (\<exists>exc. fst (client self w structured) = Inl exc) \<longrightarrow>
            fst (call_provider self content w)
              = fst (client self (snd (create (client self) structured w)) plain)
          \<and> sent (snd (call_provider self content w)) = sent w @ [structured, plain])"
proof (intro conjI impI)
  assume off: "\<not> json_mode self"
  show "fst (call_provider self content w) = fst (client self w plain)"
    using off by (simp add: call_provider_plain create_outcome plain_def)
  show "sent (snd (call_provider self content w)) = sent w @ [plain]"
    using off by (simp add: call_provider_plain create_sent plain_def)
next
  assume ok: "json_mode self \<and> (\<exists>resp. fst (client self w structured) = Inr resp)"
  then obtain resp where
    "fst (create (client self) (request_params self content (json_mode self)) w) = Inr resp"
    by (auto simp: create_outcome structured_def)
  then have eq: "call_provider self content w
      = create (client self) (request_params self content (json_mode self)) w"
    by (rule call_provider_first_ok)
  show "fst (call_provider self content w) = fst (client self w structured)"
    using ok by (simp add: eq create_outcome structured_def)
  show "sent (snd (call_provider self content w)) = sent w @ [structured]"
    using ok by (simp add: eq create_sent structured_def)
next
  assume bad: "json_mode self \<and> (\<exists>exc. fst (client self w structured) = Inl exc)"
  then obtain exc where
    "fst (create (client self) (request_params self content True) w) = Inl exc"
    by (auto simp: create_outcome structured_def)
  with bad have eq: "call_provider self content w
      = create (client self) (request_params self content False)
          (snd (create (client self) (request_params self content True) w))"
    by (simp add: call_provider_retry)
  show "fst (call_provider self content w)
      = fst (client self (snd (create (client self) structured w)) plain)"
    by (simp add: eq create_outcome structured_def plain_def)
  show "sent (snd (call_provider self content w)) = sent w @ [structured, plain]"
    by (simp add: eq create_sent structured_def plain_def)
qed

theorem call_provider_retry_policy_witness:
  "length (sent (snd (call_provider flaky_runner [Text USER_INSTRUCTION] start_world))) = 2
   \<and> fst (call_provider (flaky_runner\<lparr>json_mode := False\<rparr>) [Text USER_INSTRUCTION] start_world)
       = Inl (Exn (LibraryError ''APITimeoutError'') ''Request timed out.'')
   \<and> length (sent (snd (call_provider (flaky_runner\<lparr>json_mode := False\<rparr>)
        [Text USER_INSTRUCTION] start_world))) = 1
   \<and> length (sent (snd (call_provider steady_runner [Text USER_INSTRUCTION] start_world))) = 1"
proof -
  have a: "json_mode flaky_runner" "json_mode steady_runner"
    "\<not> json_mode (flaky_runner\<lparr>json_mode := False\<rparr>)"
    by (simp_all add: flaky_runner_def steady_runner_def)
  have b: "fst (client flaky_runner start_world
        (request_params flaky_runner [Text USER_INSTRUCTION] True))
      = Inl (Exn (LibraryError ''APITimeoutError'') ''Request timed out.'')"
    by (simp add: flaky_runner_def flaky_provider_def start_world_def)
  have c: "fst (client steady_runner start_world
        (request_params steady_runner [Text USER_INSTRUCTION] True))
      = Inr [Some example_reply]"
    by (simp add: steady_runner_def steady_provider_def)
  have d: "fst (client (flaky_runner\<lparr>json_mode := False\<rparr>) start_world
        (request_params (flaky_runner\<lparr>json_mode := False\<rparr>) [Text USER_INSTRUCTION] False))
      = Inl (Exn (LibraryError ''APITimeoutError'') ''Request timed out.'')"
    by (simp add: flaky_runner_def flaky_provider_def start_world_def)
  have e: "sent start_world = []" by (simp add: start_world_def)
  show ?thesis
    using call_provider_retry_policy [of flaky_runner "[Text USER_INSTRUCTION]" start_world]
      call_provider_retry_policy
        [of "flaky_runner\<lparr>json_mode := False\<rparr>" "[Text USER_INSTRUCTION]" start_world]
      call_provider_retry_policy [of steady_runner "[Text USER_INSTRUCTION]" start_world]
      a b c d e
    by simp
qed

lemma run_trial_recorded_latency:
  assumes "fst (runner trial w) = Inr raw" and "normalize_reply B raw = Inr x"
  shows "latency_ms (fst (run_trial B T runner trial w))
           = Some (elapsed_ms (clock w) (clock (snd (runner trial w))))"
  using assms
  by (cases "runner trial w"; cases x) (simp add: run_trial_def Let_def split: prod.splits)

lemma openai_call_build_raised:
  assumes "build_openai_content trial = Inl exc"
  shows "openai_call B T self trial w = (Inl exc, advance (build_secs T trial) w)"
  using assms by (simp add: openai_call_def)

lemma openai_call_provider_raised:
  assumes "build_openai_content trial = Inr content"
    and "call_provider self content (advance (build_secs T trial) w) = (Inl exc, w2)"
  shows "openai_call B T self trial w = (Inl exc, w2)"
  using assms by (simp add: openai_call_def)

lemma openai_call_no_choice:
  assumes "build_openai_content trial = Inr content"
    and "call_provider self content (advance (build_secs T trial) w) = (Inr [], w2)"
  shows "openai_call B T self trial w
           = (Inl (Exn IndexError ''list index out of range''), advance (select_secs T []) w2)"
  using assms by (simp add: openai_call_def)

lemma openai_call_message:
  assumes "build_openai_content trial = Inr content"
    and "call_provider self content (advance (build_secs T trial) w) = (Inr (message # rest), w2)"
  shows "openai_call B T self trial w
           = (parse_message B message,
              advance (parse_secs T message) (advance (select_secs T (message # rest)) w2))"
  using assms by (simp add: openai_call_def)

lemma example_content: "\<exists>content. build_openai_content example_trial = Inr content"
  by (simp add: build_openai_content_def candidate_def example_trial_def)

lemma start_clock: "clock start_world = 0"
  by (simp add: start_world_def)

lemma steady_call:
  "call_provider steady_runner content w
     = (Inr [Some example_reply],
        \<lparr>clock = clock w + 1, sent = sent w @ [request_params steady_runner content True]\<rparr>)"
  by (simp add: call_provider_def create_def steady_runner_def steady_provider_def
      flaky_runner_def)

lemma parse_example_reply:
  "parse_json_response example_builtins example_reply
     = Inr (PDict [(''answer'', PStr ''b''), (''confidence'', PInt 87),
                   (''reasoning'', PStr ''ok'')])"
  by (simp add: parse_json_response_def strip_fence_def narrow_braces_def example_builtins_def
      example_reply_def py_strip_def py_lstrip_def py_rstrip_def py_isspace_def startswith_def
      fence_def py_rfind_def py_slice_def)

lemma int_to_double_87: "int_to_double 87 = Some 87"
  by (rule int_to_double_exact) simp

lemma upper_b: "py_upper ''b'' = ''B''"
  by code_simp

lemma normalize_example_reply:
  "normalize_reply example_builtins
     (PDict [(''answer'', PStr ''b''), (''confidence'', PInt 87), (''reasoning'', PStr ''ok'')])
     = Inr (Some ''B'', Some (Fin 87), ''ok'')"
  by (simp add: normalize_reply_def py_get_def normalize_answer_def normalize_confidence_def
      int_to_double_87 py_str_def py_strip_def py_lstrip_def py_rstrip_def py_isspace_def
      upper_b py_max_def py_min_def Let_def)

lemma steady_openai_call:
  "fst (openai_call example_builtins T steady_runner example_trial w)
     = Inr (PDict [(''answer'', PStr ''b''), (''confidence'', PInt 87),
                   (''reasoning'', PStr ''ok'')])
   \<and> clock (snd (openai_call example_builtins T steady_runner example_trial w))
     = clock w + build_secs T example_trial + 1 + select_secs T [Some example_reply]
       + parse_secs T (Some example_reply)"
proof -
  obtain content where c: "build_openai_content example_trial = Inr content"
    using example_content by blast
  show ?thesis
    using openai_call_message
      [OF c steady_call [of content "advance (build_secs T example_trial) w"],
       of example_builtins]
    by (simp add: parse_message_def parse_example_reply advance_def)
qed

text \<open>
  Claim C7, as stated: \<^verbatim>\<open>latency_ms\<close> covers the provider call only, not the parsing. It
  fails where the provider call takes one second and parsing the reply half a second
  (building the request and taking the message from the response take a millisecond each):
  the clock is read after \<^verbatim>\<open>runner(trial)\<close> has returned, and the runner parses the reply
  before it returns, so 1502 ms are recorded.
\<close>

theorem latency_includes_parsing:
  "(case build_openai_content example_trial of
      Inl exc \<Rightarrow> False
    | Inr content \<Rightarrow>
        clock (snd (call_provider steady_runner content
                     (advance (build_secs slow_local_steps example_trial) start_world)))
        - clock (advance (build_secs slow_local_steps example_trial) start_world) = 1)
   \<and> parse_secs slow_local_steps (Some example_reply) = 1 / 2
   \<and> latency_ms (fst (run_trial example_builtins slow_local_steps
        (openai_call example_builtins slow_local_steps steady_runner) example_trial start_world))
      = Some 1502"
proof -
  obtain content where c: "build_openai_content example_trial = Inr content"
    using example_content by blast
  have first: "(case build_openai_content example_trial of
      Inl exc \<Rightarrow> False
    | Inr content \<Rightarrow>
        clock (snd (call_provider steady_runner content
                     (advance (build_secs slow_local_steps example_trial) start_world)))
        - clock (advance (build_secs slow_local_steps example_trial) start_world) = 1)"
    by (simp add: c steady_call)
  have second: "parse_secs slow_local_steps (Some example_reply) = 1 / 2"
    by (simp add: slow_local_steps_def)
  have "latency_ms (fst (run_trial example_builtins slow_local_steps
        (openai_call example_builtins slow_local_steps steady_runner) example_trial start_world))
      = Some (elapsed_ms (clock start_world)
          (clock (snd (openai_call example_builtins slow_local_steps steady_runner
             example_trial start_world))))"
    by (rule run_trial_recorded_latency [OF _ normalize_example_reply])
       (simp add: steady_openai_call)
  also have "\<dots> = Some 1502"
    by (simp add: steady_openai_call slow_local_steps_def start_clock elapsed_ms_def py_int_def)
  finally show ?thesis using first second by simp
qed

text \<open>
  Claim C7, amended. \<^verbatim>\<open>latency_ms\<close> is recorded on the success path and on every failure
  path, and it is the time from the start of the iteration to the moment \<^verbatim>\<open>runner(trial)\<close>
  returned or raised. For the chat-completions adapter that is the time of building the
  request when that raises; of building the request and the provider call (both calls when
  the first one is retried) when the call raises; and otherwise of building the request,
  the provider call, taking the message from the response and, when the response has a
  choice, parsing its content. The normalisation is not included when it completes; when a
  normalisation statement raises, the handler reads the clock again, after it.
\<close>

theorem latency_spans_runner_call:
  fixes B :: builtins and T :: timing and self :: OpenAIStyleRunner and trial :: TrialAssets
    and w :: world
  defines "r \<equiv> fst (run_trial B T (openai_call B T self) trial w)"
    and "w0 \<equiv> advance (build_secs T trial) w"
  shows "(\<forall>runner exc. fst (runner trial w) = Inl exc \<longrightarrow>
            latency_ms (fst (run_trial B T runner trial w))
              = Some (elapsed_ms (clock w) (clock (snd (runner trial w)))))
       \<and> (\<forall>runner raw x. fst (runner trial w) = Inr raw \<and> normalize_reply B raw = Inr x \<longrightarrow>
            latency_ms (fst (run_trial B T runner trial w))
              = Some (elapsed_ms (clock w) (clock (snd (runner trial w)))))
       \<and> (\<forall>runner raw exc. fst (runner trial w) = Inr raw \<and> normalize_reply B raw = Inl exc \<longrightarrow>
            latency_ms (fst (run_trial B T runner trial w))
              = Some (elapsed_ms (clock w) (clock (snd (runner trial w)) + normalize_secs T raw)))
       \<and> (\<forall>exc. build_openai_content trial = Inl exc \<longrightarrow>
            latency_ms r = Some (elapsed_ms (clock w) (clock w + build_secs T trial)))
       \<and> (\<forall>content exc w2. build_openai_content trial = Inr content
            \<and> call_provider self content w0 = (Inl exc, w2) \<longrightarrow>
            latency_ms r = Some (elapsed_ms (clock w) (clock w2)))
       \<and> (\<forall>content w2. build_openai_content trial = Inr content
            \<and> call_provider self content w0 = (Inr [], w2) \<longrightarrow>
            latency_ms r = Some (elapsed_ms (clock w) (clock w2 + select_secs T [])))
       \<and> (\<forall>content message rest w2 exc. build_openai_content trial = Inr content
            \<and> call_provider self content w0 = (Inr (message # rest), w2)
            \<and> parse_message B message = Inl exc \<longrightarrow>
            latency_ms r = Some (elapsed_ms (clock w)
              (clock w2 + select_secs T (message # rest) + parse_secs T message)))
       \<and> (\<forall>content message rest w2 raw x. build_openai_content trial = Inr content
            \<and> call_provider self content w0 = (Inr (message # rest), w2)
            \<and> parse_message B message = Inr raw \<and> normalize_reply B raw = Inr x \<longrightarrow>
            latency_ms r = Some (elapsed_ms (clock w)
              (clock w2 + select_secs T (message # rest) + parse_secs T message)))
       \<and> (\<forall>content message rest w2 raw exc. build_openai_content trial = Inr content
            \<and> call_provider self content w0 = (Inr (message # rest), w2)
            \<and> parse_message B message = Inr raw \<and> normalize_reply B raw = Inl exc \<longrightarrow>
            latency_ms r = Some (elapsed_ms (clock w)
              (clock w2 + select_secs T (message # rest) + parse_secs T message
               + normalize_secs T raw)))"
proof (intro conjI allI impI)
  fix runner :: runner and exc
  assume "fst (runner trial w) = Inl exc"
  then have "fst (run_trial B T runner trial w)
      = failed_result trial (elapsed_ms (clock w) (clock (snd (runner trial w)))) exc"
    by (rule run_trial_runner_raises)
  then show "latency_ms (fst (run_trial B T runner trial w))
      = Some (elapsed_ms (clock w) (clock (snd (runner trial w))))"
    by (simp add: failed_result_def)
next
  fix runner :: runner and raw x
  assume "fst (runner trial w) = Inr raw \<and> normalize_reply B raw = Inr x"
  then have "fst (runner trial w) = Inr raw" and "normalize_reply B raw = Inr x"
    by blast+
  then show "latency_ms (fst (run_trial B T runner trial w))
      = Some (elapsed_ms (clock w) (clock (snd (runner trial w))))"
    by (rule run_trial_recorded_latency)
next
  fix runner :: runner and raw exc
  assume "fst (runner trial w) = Inr raw \<and> normalize_reply B raw = Inl exc"
  then have "fst (runner trial w) = Inr raw" and "normalize_reply B raw = Inl exc"
    by blast+
  then have "fst (run_trial B T runner trial w)
      = failed_result trial
          (elapsed_ms (clock w) (clock (snd (runner trial w)) + normalize_secs T raw)) exc"
    by (rule run_trial_normalize_raises)
  then show "latency_ms (fst (run_trial B T runner trial w))
      = Some (elapsed_ms (clock w) (clock (snd (runner trial w)) + normalize_secs T raw))"
    by (simp add: failed_result_def)
next
  fix exc
  assume "build_openai_content trial = Inl exc"
  then have call: "openai_call B T self trial w = (Inl exc, advance (build_secs T trial) w)"
    by (rule openai_call_build_raised)
  then have "fst (openai_call B T self trial w) = Inl exc" by simp
  then have "r = failed_result trial
      (elapsed_ms (clock w) (clock (snd (openai_call B T self trial w)))) exc"
    unfolding r_def by (rule run_trial_runner_raises)
  then show "latency_ms r = Some (elapsed_ms (clock w) (clock w + build_secs T trial))"
    by (simp add: call failed_result_def advance_def)
next
  fix content exc w2
  assume "build_openai_content trial = Inr content
      \<and> call_provider self content w0 = (Inl exc, w2)"
  then have call: "openai_call B T self trial w = (Inl exc, w2)"
    unfolding w0_def by (simp add: openai_call_provider_raised)
  then have "fst (openai_call B T self trial w) = Inl exc" by simp
  then have "r = failed_result trial
      (elapsed_ms (clock w) (clock (snd (openai_call B T self trial w)))) exc"
    unfolding r_def by (rule run_trial_runner_raises)
  then show "latency_ms r = Some (elapsed_ms (clock w) (clock w2))"
    by (simp add: call failed_result_def)
next
  fix content w2
  assume "build_openai_content trial = Inr content
      \<and> call_provider self content w0 = (Inr [], w2)"
  then have call: "openai_call B T self trial w
      = (Inl (Exn IndexError ''list index out of range''), advance (select_secs T []) w2)"
    unfolding w0_def by (simp add: openai_call_no_choice)
  then have "fst (openai_call B T self trial w) = Inl (Exn IndexError ''list index out of range'')"
    by simp
  then have "r = failed_result trial
      (elapsed_ms (clock w) (clock (snd (openai_call B T self trial w))))
      (Exn IndexError ''list index out of range'')"
    unfolding r_def by (rule run_trial_runner_raises)
  then show "latency_ms r = Some (elapsed_ms (clock w) (clock w2 + select_secs T []))"
    by (simp add: call failed_result_def advance_def)
next
  fix content message rest w2 exc
  assume "build_openai_content trial = Inr content
      \<and> call_provider self content w0 = (Inr (message # rest), w2)
      \<and> parse_message B message = Inl exc"
  then have call: "openai_call B T self trial w
      = (Inl exc, advance (parse_secs T message) (advance (select_secs T (message # rest)) w2))"
    unfolding w0_def
    using openai_call_message [of trial content self T w message rest w2 B] by simp
  then have "fst (openai_call B T self trial w) = Inl exc" by simp
  then have "r = failed_result trial
      (elapsed_ms (clock w) (clock (snd (openai_call B T self trial w)))) exc"
    unfolding r_def by (rule run_trial_runner_raises)
  then show "latency_ms r = Some (elapsed_ms (clock w)
      (clock w2 + select_secs T (message # rest) + parse_secs T message))"
    by (simp add: call failed_result_def advance_def)
next
  fix content message rest w2 raw x
  assume a: "build_openai_content trial = Inr content
      \<and> call_provider self content w0 = (Inr (message # rest), w2)
      \<and> parse_message B message = Inr raw \<and> normalize_reply B raw = Inr x"
  then have call: "openai_call B T self trial w
      = (Inr raw, advance (parse_secs T message) (advance (select_secs T (message # rest)) w2))"
    unfolding w0_def
    using openai_call_message [of trial content self T w message rest w2 B] by simp
  then have "fst (openai_call B T self trial w) = Inr raw" by simp
  moreover have "normalize_reply B raw = Inr x" using a by simp
  ultimately have "latency_ms r
      = Some (elapsed_ms (clock w) (clock (snd (openai_call B T self trial w))))"
    unfolding r_def by (rule run_trial_recorded_latency)
  then show "latency_ms r = Some (elapsed_ms (clock w)
      (clock w2 + select_secs T (message # rest) + parse_secs T message))"
    by (simp add: call advance_def)
next
  fix content message rest w2 raw exc
  assume a: "build_openai_content trial = Inr content
      \<and> call_provider self content w0 = (Inr (message # rest), w2)
      \<and> parse_message B message = Inr raw \<and> normalize_reply B raw = Inl exc"
  then have call: "openai_call B T self trial w
      = (Inr raw, advance (parse_secs T message) (advance (select_secs T (message # rest)) w2))"
    unfolding w0_def
    using openai_call_message [of trial content self T w message rest w2 B] by simp
  then have "fst (openai_call B T self trial w) = Inr raw" by simp
  moreover have "normalize_reply B raw = Inl exc" using a by simp
  ultimately have "r = failed_result trial
      (elapsed_ms (clock w) (clock (snd (openai_call B T self trial w)) + normalize_secs T raw))
      exc"
    unfolding r_def by (rule run_trial_normalize_raises)
  then show "latency_ms r = Some (elapsed_ms (clock w)
      (clock w2 + select_secs T (message # rest) + parse_secs T message + normalize_secs T raw))"
    by (simp add: call failed_result_def advance_def)
qed

theorem latency_spans_runner_call_witness:
  "latency_ms (fst (run_trial example_builtins slow_local_steps
      (openai_call example_builtins slow_local_steps steady_runner) example_trial start_world))
     = Some 1502
   \<and> latency_ms (fst (run_trial example_builtins slow_local_steps
      (openai_call example_builtins slow_local_steps (flaky_runner\<lparr>json_mode := False\<rparr>))
      example_trial start_world))
     = Some 120001
   \<and> latency_ms (fst (run_trial example_builtins slow_local_steps timeout_first_runner
      example_trial start_world))
     = Some 120000"
proof -
  obtain content where c: "build_openai_content example_trial = Inr content"
    using example_content by blast
  let ?w0 = "advance (build_secs slow_local_steps example_trial) start_world"
  have steady: "call_provider steady_runner content ?w0
      = (Inr (Some example_reply # []),
         \<lparr>clock = clock ?w0 + 1,
          sent = sent ?w0 @ [request_params steady_runner content True]\<rparr>)"
    by (rule steady_call)
  have flaky: "call_provider (flaky_runner\<lparr>json_mode := False\<rparr>) content ?w0
      = (Inl (Exn (LibraryError ''APITimeoutError'') ''Request timed out.''),
         \<lparr>clock = clock ?w0 + 120,
          sent = sent ?w0 @ [request_params (flaky_runner\<lparr>json_mode := False\<rparr>) content False]\<rparr>)"
    by (simp add: call_provider_def create_def flaky_runner_def flaky_provider_def
        start_world_def advance_def)
  have parsed: "parse_message example_builtins (Some example_reply)
      = Inr (PDict [(''answer'', PStr ''b''), (''confidence'', PInt 87),
                    (''reasoning'', PStr ''ok'')])"
    by (simp add: parse_message_def parse_example_reply)
  have raised: "fst (timeout_first_runner example_trial start_world)
      = Inl (Exn (LibraryError ''APITimeoutError'') ''Request timed out.'')"
    by (simp add: timeout_first_runner_def example_trial_def)
  have t: "elapsed_ms (clock start_world)
             (clock ?w0 + 1 + select_secs slow_local_steps [Some example_reply]
              + parse_secs slow_local_steps (Some example_reply)) = 1502"
    "elapsed_ms (clock start_world) (clock ?w0 + 120) = 120001"
    "elapsed_ms (clock start_world) (clock (snd (timeout_first_runner example_trial start_world)))
       = 120000"
    by (simp_all add: elapsed_ms_def py_int_def slow_local_steps_def start_clock advance_def
        timeout_first_runner_def example_trial_def)
  note general = latency_spans_runner_call
    [of example_trial start_world example_builtins slow_local_steps]
  have first: "latency_ms (fst (run_trial example_builtins slow_local_steps
      (openai_call example_builtins slow_local_steps steady_runner) example_trial start_world))
     = Some 1502"
    using general [of steady_runner] c steady parsed normalize_example_reply t(1)
    by simp
  have second: "latency_ms (fst (run_trial example_builtins slow_local_steps
      (openai_call example_builtins slow_local_steps (flaky_runner\<lparr>json_mode := False\<rparr>))
      example_trial start_world))
     = Some 120001"
    using general [of "flaky_runner\<lparr>json_mode := False\<rparr>"] c flaky t(2)
    by simp
  have third: "latency_ms (fst (run_trial example_builtins slow_local_steps timeout_first_runner
      example_trial start_world))
     = Some 120000"
    using general [of steady_runner] raised t(3)
    by simp
  from first second third show ?thesis
    by (intro conjI)
qed

section \<open>Properties of the trial loader\<close>

lemma discover_loop_uncapped:
  "discover_loop B F None files acc =
     (case load_all B F files of Inl exc \<Rightarrow> Inl exc | Inr ts \<Rightarrow> Inr (acc @ ts))"
  by (induction files arbitrary: acc) (auto split: sum.splits)

lemma discover_loop_capped:
  assumes "acc = [] \<or> int (length acc) < n"
  shows "discover_loop B F (Some n) files acc =
     (case load_all B F (take (max 1 (nat n) - length acc) files) of
        Inl exc \<Rightarrow> Inl exc
      | Inr ts \<Rightarrow> Inr (acc @ ts))"
  using assms
proof (induction files arbitrary: acc)
  case Nil
  show ?case by simp
next
  case (Cons p rest)
  have room: "0 < max 1 (nat n) - length acc"
    using Cons.prems by auto
  then obtain k where k: "max 1 (nat n) - length acc = Suc k"
    by (cases "max 1 (nat n) - length acc") auto
  have tk: "take (max 1 (nat n) - length acc) (p # rest) = p # take k rest"
    unfolding k by simp
  show ?case
  proof (cases "load_trial B F p")
    case (Inl exc)
    then show ?thesis unfolding tk by simp
  next
    case (Inr t)
    show ?thesis
    proof (cases "n \<le> int (length (acc @ [t]))")
      case True
      then have "k = 0" using k Cons.prems by auto
      with Inr True show ?thesis unfolding tk by simp
    next
      case False
      then have inv: "acc @ [t] = [] \<or> int (length (acc @ [t])) < n" by simp
      have k': "max 1 (nat n) - length (acc @ [t]) = k" using k by simp
      have ih: "discover_loop B F (Some n) rest (acc @ [t]) =
          (case load_all B F (take k rest) of
             Inl exc \<Rightarrow> Inl exc
           | Inr ts \<Rightarrow> Inr ((acc @ [t]) @ ts))"
        using Cons.IH [OF inv] unfolding k' .
      show ?thesis
        unfolding tk using Inr False ih by (simp split: sum.splits)
    qed
  qed
qed

text \<open>
  What \<^verbatim>\<open>discover_trials\<close> returns: the Trial Assets of the first files in sorted order, all
  of them without a cap, \<open>max 1 n\<close> of them with the cap \<open>n\<close>; or the first failure among them.
\<close>

lemma discover_trials_reads:
  "discover_trials B F max_trials
     = load_all B F (files_read max_trials (sort (rglob_metadata F)))"
proof (cases max_trials)
  case None
  then show ?thesis
    by (simp add: discover_trials_def files_read_def discover_loop_uncapped split: sum.splits)
next
  case (Some n)
  then show ?thesis
    using discover_loop_capped [of "[]" n B F "sort (rglob_metadata F)"]
    by (simp add: discover_trials_def files_read_def split: sum.splits)
qed

text \<open>
  The order in which the operating system lists the metadata files does not matter: two
  listings of the same files give the same result.
\<close>

lemma read_image_listing:
  "read_image (F\<lparr>rglob_metadata := listing\<rparr>) dir fname = read_image F dir fname"
  by (simp add: read_image_def split: sum.splits)

lemma read_candidates_listing:
  "read_candidates (F\<lparr>rglob_metadata := listing\<rparr>) dir letters = read_candidates F dir letters"
  by (induction letters) (simp_all add: read_image_listing split: sum.splits)

lemma load_trial_listing:
  "load_trial B (F\<lparr>rglob_metadata := listing\<rparr>) p = load_trial B F p"
  by (simp add: load_trial_def read_image_listing read_candidates_listing
        del: read_candidates.simps cong: if_cong)

lemma load_all_listing:
  "load_all B (F\<lparr>rglob_metadata := listing\<rparr>) files = load_all B F files"
  by (induction files) (simp_all add: load_trial_listing cong: sum.case_cong)

lemma discover_trials_order_independent:
  assumes "mset listing = mset (rglob_metadata F)"
  shows "discover_trials B (F\<lparr>rglob_metadata := listing\<rparr>) max_trials
           = discover_trials B F max_trials"
proof -
  have "sort listing = sort (rglob_metadata F)"
    using assms by (intro properties_for_sort) simp_all
  then show ?thesis
    by (simp add: discover_trials_reads load_all_listing)
qed

lemma load_all_results:
  assumes "load_all B F files = Inr ts" and "t \<in> set ts"
  shows "\<exists>p \<in> set files. load_trial B F p = Inr t"
  using assms
  by (induction files arbitrary: ts) (auto split: sum.splits)


lemma set_files_read: "set (files_read max_trials files) \<subseteq> set files"
  by (auto simp: files_read_def dest: in_set_takeD split: option.splits)

lemma first_correct_unmarked:
  "no_target_marked ts \<Longrightarrow> first_correct ts = Inr PNone"
  by (induction ts) (auto split: pyval.splits)



text \<open>With the \<^verbatim>\<open>config\<close> entry missing or an object, the failure is the \<^verbatim>\<open>ValueError\<close>.\<close>

lemma load_trial_unmarked_error:
  assumes "load_json F p = Inr (PDict kvs)"
    and "map_of kvs ''config'' = None \<or> (\<exists>c. map_of kvs ''config'' = Some (PDict c))"
    and "py_iter (case map_of kvs ''targets'' of None \<Rightarrow> PList [] | Some x \<Rightarrow> x) = Inr targets"
    and "no_target_marked targets"
  shows "load_trial B F p
           = Inl (Exn ValueError (''No correct target found in '' @ path_text F p))"
proof -
  have "first_correct targets = Inr PNone"
    using assms(4) by (rule first_correct_unmarked)
  then show ?thesis
    using assms(1,2,3)
    by (auto simp: load_trial_def and_then_def py_get_def)
qed



text \<open>
  Claim C5. With the cap \<open>N = 0\<close> the claim asks for the first \<open>0\<close> trials, that is none. The
  loop tests the cap only after it has appended a Trial Asset, so the first trial of the
  sorted order is returned (the dataset has two trials, listed as \<^verbatim>\<open>shape_b\<close>, \<^verbatim>\<open>shape_a\<close>).
\<close>

theorem cap_zero_returns_first_trial:
  "(case discover_trials example_builtins example_fs (Some 0) of
      Inl exc \<Rightarrow> []
    | Inr trials \<Rightarrow> map label trials) = [''shape_a'']
   \<and> (case discover_trials example_builtins example_fs None of
        Inl exc \<Rightarrow> []
      | Inr trials \<Rightarrow> map label trials) = [''shape_a'', ''shape_b'']"
  by code_simp



section \<open>Properties of the report aggregator\<close>













section \<open>Properties of the reply parser\<close>

text \<open>
  A text that has an object between a part without opening brace and a part without
  closing brace is narrowed to the object.
\<close>

lemma narrow_braces_object:
  assumes "CHR ''{'' \<notin> set p" and "CHR ''}'' \<notin> set q"
  shows "narrow_braces (p @ (CHR ''{'' # mid @ [CHR ''}'']) @ q) = CHR ''{'' # mid @ [CHR ''}'']"
proof -
  let ?s = "p @ CHR ''{'' # mid @ CHR ''}'' # q"
  have first: "py_find ?s ''{'' = Some (length p)"
    using assms(1) by (rule py_find_char)
  have "py_rfind ((p @ CHR ''{'' # mid) @ CHR ''}'' # q) ''}'' = Some (length (p @ CHR ''{'' # mid))"
    using assms(2) by (rule py_rfind_char)
  then have last: "py_rfind ?s ''}'' = Some (Suc (length p + length mid))"
    by simp
  have "narrow_braces ?s = py_slice ?s (length p) (Suc (length p + length mid) + 1)"
    by (simp add: narrow_braces_def first last)
  also have "\<dots> = take (length mid + 2) (CHR ''{'' # mid @ CHR ''}'' # q)"
    by (simp add: py_slice_def)
  also have "\<dots> = CHR ''{'' # mid @ [CHR ''}'']"
    by simp
  finally show ?thesis
    by simp
qed

text \<open>The blocks of a text that begins with a fence.\<close>

lemma py_find_fence_start: "py_find (fence @ s) fence = Some 0"
  by (simp add: fence_def startswith_def)

lemma py_split_fenced:
  assumes "py_find (body @ fence @ rest) fence = Some (length body)"
  shows "\<exists>blocks. py_split (fence @ body @ fence @ rest) fence = [] # body # blocks"
proof -
  have "py_split (fence @ body @ fence @ rest) fence
          = [] # py_split (body @ fence @ rest) fence"
    by (subst py_split.simps) (simp add: py_find_fence_start, simp add: fence_def)
  moreover have "py_split (body @ fence @ rest) fence
          = body # py_split rest fence"
    using assms by (subst py_split.simps) (simp add: fence_def)
  ultimately show ?thesis
    by simp
qed

text \<open>
  When the lower-cased text begins with \<^verbatim>\<open>json\<close>, these four characters lie before the
  first opening brace.
\<close>

lemma json_tag_before_brace:
  assumes "startswith (py_lower (p @ CHR ''{'' # r)) ''json''" and "CHR ''{'' \<notin> set p"
  shows "4 \<le> length p"
proof (rule ccontr)
  assume "\<not> 4 \<le> length p"
  then have short: "length p < 4" by simp
  let ?l = "py_lower (p @ CHR ''{'' # r)"
  have "length ''json'' = 4"
    by simp
  then have tk: "take 4 ?l = ''json''"
    using assms(1) unfolding startswith_def by (simp only:)
  have "?l ! length p = py_lower_char (CHR ''{'')"
    by (simp add: py_lower_def nth_append)
  also have "\<dots> = CHR ''{''"
    by (simp add: py_lower_char_def)
  finally have brace: "?l ! length p = CHR ''{''" .
  have "take 4 ?l ! length p = ?l ! length p"
    using short by simp
  with tk brace have "''json'' ! length p = CHR ''{''"
    by simp
  moreover have "length p = 0 \<or> length p = 1 \<or> length p = 2 \<or> length p = 3"
    using short by arith
  ultimately show False
    by (elim disjE) simp_all
qed

text \<open>
  The text of a leading fence: with the closing fence as the first triple backtick after
  the opening one and an object in between, what \<^verbatim>\<open>strip_fence\<close> leaves still has the
  object between a part without opening brace and a part without closing brace.
\<close>

lemma strip_fence_object:
  assumes "py_find (body @ fence @ rest) fence = Some (length body)"
    and "body = pre @ (CHR ''{'' # mid @ [CHR ''}'']) @ post"
    and "CHR ''{'' \<notin> set pre"
    and "CHR ''}'' \<notin> set post"
  shows "\<exists>p q. strip_fence (fence @ body @ fence @ rest) = p @ (CHR ''{'' # mid @ [CHR ''}'']) @ q
           \<and> CHR ''{'' \<notin> set p \<and> CHR ''}'' \<notin> set q"
proof -
  let ?obj = "CHR ''{'' # mid @ [CHR ''}'']"
  have ends: "?obj \<noteq> []" "\<not> py_isspace (hd ?obj)" "\<not> py_isspace (last ?obj)"
    by (simp_all add: py_isspace_def)
  obtain blocks where blocks: "py_split (fence @ body @ fence @ rest) fence = [] # body # blocks"
    using py_split_fenced [OF assms(1)] by blast
  let ?p = "py_lstrip pre" and ?q = "py_rstrip post"
  have c2: "py_strip body = ?p @ ?obj @ ?q"
    unfolding assms(2) using ends by (rule py_strip_around)
  have p: "CHR ''{'' \<notin> set ?p" and q: "CHR ''}'' \<notin> set ?q"
    using assms(3,4) set_py_lstrip [of pre] set_py_rstrip [of post] by auto
  have start: "startswith (fence @ body @ fence @ rest) fence"
    by (simp add: startswith_def)
  show ?thesis
  proof (cases "startswith (py_lower (?p @ ?obj @ ?q)) ''json''")
    case False
    then have "strip_fence (fence @ body @ fence @ rest) = ?p @ ?obj @ ?q"
      using start by (simp add: strip_fence_def blocks c2 Let_def)
    with p q show ?thesis by blast
  next
    case True
    then have "4 \<le> length ?p"
      using json_tag_before_brace [of ?p "mid @ [CHR ''}''] @ ?q"] p by simp
    then have "drop 4 (?p @ ?obj @ ?q) = drop 4 ?p @ ?obj @ ?q"
      by simp
    then have "py_strip (drop 4 (?p @ ?obj @ ?q))
        = py_lstrip (drop 4 ?p) @ ?obj @ py_rstrip ?q"
      using py_strip_around [OF ends, of "drop 4 ?p" ?q] by simp
    then have "strip_fence (fence @ body @ fence @ rest)
        = py_lstrip (drop 4 ?p) @ ?obj @ py_rstrip ?q"
      using start True by (simp add: strip_fence_def blocks c2 Let_def)
    moreover have "CHR ''{'' \<notin> set (py_lstrip (drop 4 ?p))"
      using p set_py_lstrip [of "drop 4 ?p"] set_drop_subset [of 4 ?p] by auto
    moreover have "CHR ''}'' \<notin> set (py_rstrip ?q)"
      using q set_py_rstrip [of ?q] by auto
    ultimately show ?thesis by blast
  qed
qed

lemma parse_fenced_object:
  assumes "py_strip text = fence @ body @ fence @ rest"
    and "py_find (body @ fence @ rest) fence = Some (length body)"
    and "body = pre @ (CHR ''{'' # mid @ [CHR ''}'']) @ post"
    and "CHR ''{'' \<notin> set pre"
    and "CHR ''}'' \<notin> set post"
  shows "parse_json_response B text = json_loads B (CHR ''{'' # mid @ [CHR ''}''])"
proof -
  obtain p q where
    "strip_fence (fence @ body @ fence @ rest) = p @ (CHR ''{'' # mid @ [CHR ''}'']) @ q"
    "CHR ''{'' \<notin> set p" "CHR ''}'' \<notin> set q"
    using strip_fence_object [OF assms(2-5)] by blast
  then show ?thesis
    using narrow_braces_object [of p q mid]
    by (simp add: parse_json_response_def assms(1))
qed

lemma parse_object_in_prose:
  assumes "\<not> startswith (py_strip text) fence"
    and "text = pre @ (CHR ''{'' # mid @ [CHR ''}'']) @ post"
    and "CHR ''{'' \<notin> set pre"
    and "CHR ''}'' \<notin> set post"
  shows "parse_json_response B text = json_loads B (CHR ''{'' # mid @ [CHR ''}''])"
proof -
  let ?obj = "CHR ''{'' # mid @ [CHR ''}'']"
  have ends: "?obj \<noteq> []" "\<not> py_isspace (hd ?obj)" "\<not> py_isspace (last ?obj)"
    by (simp_all add: py_isspace_def)
  have stripped: "py_strip text = py_lstrip pre @ ?obj @ py_rstrip post"
    unfolding assms(2) using ends by (rule py_strip_around)
  have "CHR ''{'' \<notin> set (py_lstrip pre)" and "CHR ''}'' \<notin> set (py_rstrip post)"
    using assms(3,4) set_py_lstrip [of pre] set_py_rstrip [of post] by auto
  then have "narrow_braces (py_lstrip pre @ ?obj @ py_rstrip post) = ?obj"
    by (rule narrow_braces_object)
  moreover have "strip_fence (py_strip text) = py_strip text"
    using assms(1) by (simp add: strip_fence_def)
  ultimately show ?thesis
    by (simp add: parse_json_response_def stripped)
qed

text \<open>What \<^verbatim>\<open>strip_fence\<close> and \<^verbatim>\<open>narrow_braces\<close> leave, case by case.\<close>

lemma strip_fence_plain: "\<not> startswith c fence \<Longrightarrow> strip_fence c = c"
  by (simp add: strip_fence_def)

lemma strip_fence_closed:
  assumes "py_find (body @ fence @ rest) fence = Some (length body)"
  shows "strip_fence (fence @ body @ fence @ rest)
           = (if startswith (py_lower (py_strip body)) ''json''
              then py_strip (drop 4 (py_strip body)) else py_strip body)"
proof -
  obtain blocks where "py_split (fence @ body @ fence @ rest) fence = [] # body # blocks"
    using py_split_fenced [OF assms] by blast
  moreover have "startswith (fence @ body @ fence @ rest) fence"
    by (simp add: startswith_def)
  ultimately show ?thesis
    by (simp add: strip_fence_def Let_def)
qed

lemma strip_fence_unclosed:
  assumes "py_find body fence = None"
  shows "strip_fence (fence @ body)
           = (if startswith (py_lower (py_strip body)) ''json''
              then py_strip (drop 4 (py_strip body)) else py_strip body)"
proof -
  have "py_split (fence @ body) fence = [] # py_split body fence"
    by (subst py_split.simps) (simp add: py_find_fence_start, simp add: fence_def)
  moreover have "py_split body fence = [body]"
    using assms by (subst py_split.simps) (simp add: fence_def)
  moreover have "startswith (fence @ body) fence"
    by (simp add: startswith_def)
  ultimately show ?thesis
    by (simp add: strip_fence_def Let_def)
qed

lemma narrow_braces_plain:
  "CHR ''{'' \<notin> set c \<or> CHR ''}'' \<notin> set c \<Longrightarrow> narrow_braces c = c"
  by (auto simp: narrow_braces_def)

text \<open>
  Claim C3, as stated: the embedded JSON object is recovered from fenced output. It fails
  on a fenced object that has a triple backtick inside one of its strings: \<^verbatim>\<open>split\<close> cuts
  the text there, the part that is left has no closing brace, and \<^verbatim>\<open>json.loads\<close> raises on
  it although the object between the fences is valid JSON.
\<close>

theorem fenced_object_with_backticks_not_recovered:
  \<open>narrow_braces (strip_fence (py_strip fenced_backtick_reply)) = ''{"answer":"A","reasoning":"''
   \<and> parse_json_response reply_builtins fenced_backtick_reply
       = Inl (Exn JSONDecodeError ''Unterminated string starting at: line 1 column 27 (char 26)'')
   \<and> json_loads reply_builtins backtick_object
       = Inr (PDict [(''answer'', PStr ''A''),
                     (''reasoning'', PStr (fence @ '' opens a code block''))])\<close>
  by code_simp

text \<open>
  Claim C3, amended. \<^verbatim>\<open>parse_json_response\<close> decodes what is left of the stripped text after
  \<^verbatim>\<open>strip_fence\<close> and \<^verbatim>\<open>narrow_braces\<close>, and raises what \<^verbatim>\<open>json.loads\<close> raises on it.
  \<^verbatim>\<open>strip_fence\<close> leaves a text that does not begin with a triple backtick as it is; of a
  text that begins with one it takes what stands before the next triple backtick (all that
  follows when there is none), stripped and without a leading tag \<^verbatim>\<open>json\<close>. \<^verbatim>\<open>narrow_braces\<close>
  leaves a text without opening or without closing brace as it is and takes the part from
  the first opening to the last closing brace otherwise. So an object is recovered from
  fenced output when the closing fence is the first triple backtick after the opening one
  (whatever tag or other text without braces stands around the object inside the fence),
  and from a text that does not begin with a fence and has the object between a part
  without opening brace and a part without closing brace.
\<close>

theorem parse_json_response_recovers_object:
  "parse_json_response B text = json_loads B (narrow_braces (strip_fence (py_strip text)))
   \<and> (\<forall>c. \<not> startswith c fence \<longrightarrow> strip_fence c = c)
   \<and> (\<forall>body rest. py_find (body @ fence @ rest) fence = Some (length body) \<longrightarrow>
        strip_fence (fence @ body @ fence @ rest)
          = (if startswith (py_lower (py_strip body)) ''json''
             then py_strip (drop 4 (py_strip body)) else py_strip body))
   \<and> (\<forall>body. py_find body fence = None \<longrightarrow>
        strip_fence (fence @ body)
          = (if startswith (py_lower (py_strip body)) ''json''
             then py_strip (drop 4 (py_strip body)) else py_strip body))
   \<and> (\<forall>c. CHR ''{'' \<notin> set c \<or> CHR ''}'' \<notin> set c \<longrightarrow> narrow_braces c = c)
   \<and> (\<forall>p mid q. CHR ''{'' \<notin> set p \<and> CHR ''}'' \<notin> set q \<longrightarrow>
        narrow_braces (p @ (CHR ''{'' # mid @ [CHR ''}'']) @ q) = CHR ''{'' # mid @ [CHR ''}''])
   \<and> (\<forall>body rest pre mid post.
       py_strip text = fence @ body @ fence @ rest
     \<and> py_find (body @ fence @ rest) fence = Some (length body)
     \<and> body = pre @ (CHR ''{'' # mid @ [CHR ''}'']) @ post
     \<and> CHR ''{'' \<notin> set pre \<and> CHR ''}'' \<notin> set post \<longrightarrow>
       parse_json_response B text = json_loads B (CHR ''{'' # mid @ [CHR ''}'']))
   \<and> (\<forall>pre mid post.
       \<not> startswith (py_strip text) fence
     \<and> text = pre @ (CHR ''{'' # mid @ [CHR ''}'']) @ post
     \<and> CHR ''{'' \<notin> set pre \<and> CHR ''}'' \<notin> set post \<longrightarrow>
       parse_json_response B text = json_loads B (CHR ''{'' # mid @ [CHR ''}'']))"
proof (intro conjI allI impI)
  show "parse_json_response B text = json_loads B (narrow_braces (strip_fence (py_strip text)))"
    by (simp add: parse_json_response_def)
next
  fix c
  assume "\<not> startswith c fence"
  then show "strip_fence c = c"
    by (rule strip_fence_plain)
next
  fix body rest
  assume "py_find (body @ fence @ rest) fence = Some (length body)"
  then show "strip_fence (fence @ body @ fence @ rest)
          = (if startswith (py_lower (py_strip body)) ''json''
             then py_strip (drop 4 (py_strip body)) else py_strip body)"
    by (rule strip_fence_closed)
next
  fix body
  assume "py_find body fence = None"
  then show "strip_fence (fence @ body)
          = (if startswith (py_lower (py_strip body)) ''json''
             then py_strip (drop 4 (py_strip body)) else py_strip body)"
    by (rule strip_fence_unclosed)
next
  fix c
  assume "CHR ''{'' \<notin> set c \<or> CHR ''}'' \<notin> set c"
  then show "narrow_braces c = c"
    by (rule narrow_braces_plain)
next
  fix p mid q
  assume "CHR ''{'' \<notin> set p \<and> CHR ''}'' \<notin> set q"
  then have "CHR ''{'' \<notin> set p" and "CHR ''}'' \<notin> set q"
    by blast+
  then show "narrow_braces (p @ (CHR ''{'' # mid @ [CHR ''}'']) @ q) = CHR ''{'' # mid @ [CHR ''}'']"
    by (rule narrow_braces_object)
next
  fix body rest pre mid post
  assume "py_strip text = fence @ body @ fence @ rest
     \<and> py_find (body @ fence @ rest) fence = Some (length body)
     \<and> body = pre @ (CHR ''{'' # mid @ [CHR ''}'']) @ post
     \<and> CHR ''{'' \<notin> set pre \<and> CHR ''}'' \<notin> set post"
  then have "py_strip text = fence @ body @ fence @ rest"
    and "py_find (body @ fence @ rest) fence = Some (length body)"
    and "body = pre @ (CHR ''{'' # mid @ [CHR ''}'']) @ post"
    and "CHR ''{'' \<notin> set pre" and "CHR ''}'' \<notin> set post"
    by blast+
  then show "parse_json_response B text = json_loads B (CHR ''{'' # mid @ [CHR ''}''])"
    by (rule parse_fenced_object)
next
  fix pre mid post
  assume "\<not> startswith (py_strip text) fence
     \<and> text = pre @ (CHR ''{'' # mid @ [CHR ''}'']) @ post
     \<and> CHR ''{'' \<notin> set pre \<and> CHR ''}'' \<notin> set post"
  then have "\<not> startswith (py_strip text) fence"
    and "text = pre @ (CHR ''{'' # mid @ [CHR ''}'']) @ post"
    and "CHR ''{'' \<notin> set pre" and "CHR ''}'' \<notin> set post"
    by blast+
  then show "parse_json_response B text = json_loads B (CHR ''{'' # mid @ [CHR ''}''])"
    by (rule parse_object_in_prose)
qed

theorem parse_json_response_recovers_object_witness:
  "py_strip fenced_reply = fence @ (''json'' @ [CHR 0x0A] @ answer_object @ [CHR 0x0A]) @ fence @ []
   \<and> py_find ((''json'' @ [CHR 0x0A] @ answer_object @ [CHR 0x0A]) @ fence @ []) fence
       = Some (length (''json'' @ [CHR 0x0A] @ answer_object @ [CHR 0x0A]))
   \<and> parse_json_response reply_builtins fenced_reply = Inr (PDict [(''answer'', PStr ''A'')])
   \<and> \<not> startswith (py_strip prose_reply) fence
   \<and> parse_json_response reply_builtins prose_reply = Inr (PDict [(''answer'', PStr ''A'')])"
proof -
  let ?body = "''json'' @ [CHR 0x0A] @ answer_object @ [CHR 0x0A]"
  have f1: "py_strip fenced_reply = fence @ ?body @ fence @ []"
    by code_simp
  have f2: "py_find (?body @ fence @ []) fence = Some (length ?body)"
    by code_simp
  have f3: \<open>?body = (''json'' @ [CHR 0x0A]) @ (CHR ''{'' # ''"answer":"A"'' @ [CHR ''}''])
                      @ [CHR 0x0A]\<close>
    by (simp add: answer_object_def)
  have f4: "CHR ''{'' \<notin> set (''json'' @ [CHR 0x0A]) \<and> CHR ''}'' \<notin> set [CHR 0x0A]"
    by simp
  have p1: "\<not> startswith (py_strip prose_reply) fence"
    by code_simp
  have p2: \<open>prose_reply = ''Sure! '' @ (CHR ''{'' # ''"answer":"A"'' @ [CHR ''}''])
                            @ '' Hope that helps.''\<close>
    by (simp add: prose_reply_def answer_object_def)
  have p3: "CHR ''{'' \<notin> set ''Sure! '' \<and> CHR ''}'' \<notin> set '' Hope that helps.''"
    by simp
  have decoded: \<open>json_loads reply_builtins (CHR ''{'' # ''"answer":"A"'' @ [CHR ''}''])
                   = Inr (PDict [(''answer'', PStr ''A'')])\<close>
    by (simp add: reply_builtins_def answer_object_def)
  note fenced_case = parse_json_response_recovers_object [of reply_builtins fenced_reply,
      THEN conjunct2, THEN conjunct2, THEN conjunct2, THEN conjunct2, THEN conjunct2,
      THEN conjunct2, THEN conjunct1, rule_format]
  note prose_case = parse_json_response_recovers_object [of reply_builtins prose_reply,
      THEN conjunct2, THEN conjunct2, THEN conjunct2, THEN conjunct2, THEN conjunct2,
      THEN conjunct2, THEN conjunct2, rule_format]
  from f1 f2 f3 f4 have
    \<open>py_strip fenced_reply = fence @ ?body @ fence @ []
     \<and> py_find (?body @ fence @ []) fence = Some (length ?body)
     \<and> ?body = (''json'' @ [CHR 0x0A]) @ (CHR ''{'' # ''"answer":"A"'' @ [CHR ''}''])
                 @ [CHR 0x0A]
     \<and> CHR ''{'' \<notin> set (''json'' @ [CHR 0x0A]) \<and> CHR ''}'' \<notin> set [CHR 0x0A]\<close>
    by (intro conjI) (rule f1, rule f2, rule f3, rule f4 [THEN conjunct1], rule f4 [THEN conjunct2])
  then have \<open>parse_json_response reply_builtins fenced_reply
      = json_loads reply_builtins (CHR ''{'' # ''"answer":"A"'' @ [CHR ''}''])\<close>
    by (rule fenced_case)
  then have fenced: "parse_json_response reply_builtins fenced_reply
                  = Inr (PDict [(''answer'', PStr ''A'')])"
    by (simp only: decoded)
  from p1 p2 p3 have
    \<open>\<not> startswith (py_strip prose_reply) fence
     \<and> prose_reply = ''Sure! '' @ (CHR ''{'' # ''"answer":"A"'' @ [CHR ''}''])
                       @ '' Hope that helps.''
     \<and> CHR ''{'' \<notin> set ''Sure! '' \<and> CHR ''}'' \<notin> set '' Hope that helps.''\<close>
    by (intro conjI) (rule p1, rule p2, rule p3 [THEN conjunct1], rule p3 [THEN conjunct2])
  then have \<open>parse_json_response reply_builtins prose_reply
      = json_loads reply_builtins (CHR ''{'' # ''"answer":"A"'' @ [CHR ''}''])\<close>
    by (rule prose_case)
  then have prose: "parse_json_response reply_builtins prose_reply
                 = Inr (PDict [(''answer'', PStr ''A'')])"
    by (simp only: decoded)
  from f1 f2 fenced p1 prose show ?thesis
    by (intro conjI)
qed
end
